theory Spec2Isabelle
  imports Complex_Main "HOL-Library.Word"
begin

unbundle bit_operations_syntax

section \<open>Scene synchronization core of the Tundra protocol module\<close>

text \<open>
  This development embeds parts of \<^verbatim>\<open>SyncManager.cpp\<close> (the scene synchronization
  manager of the Tundra protocol module) and checks statements of the specification
  against them.  C++ \<^verbatim>\<open>float\<close> values are read as real numbers: the statements below
  concern which branch the code takes and which state it leaves, never a rounding error.
\<close>

subsection \<open>Construction and the extrapolation window\<close>

text \<open>
  The scalar members of \<^verbatim>\<open>SyncManager\<close> that its constructor initialises.
  Member names lose the trailing underscore of the source.  \<^verbatim>\<open>prioritizer_\<close> is a pointer
  in the source; here the flag says whether it is set.
\<close>

record SyncManager =
  updatePeriod :: real
  updateAcc :: real
  maxLinExtrapTime :: real
  noClientPhysicsHandoff :: bool
  prioUpdateAcc :: real
  priorityUpdatePeriod :: real
  prioritizer :: bool

text \<open>
  The command line as the framework exposes it: \<^verbatim>\<open>CommandLineParameters(name)\<close> gives the
  values passed for a flag, in order, \<^verbatim>\<open>HasCommandLineParameter(name)\<close> says whether the
  flag is present.  \<^verbatim>\<open>QString::toFloat\<close> and \<^verbatim>\<open>ParseBool\<close> are library functions outside
  the sources and are taken as they are: \<open>toFloat s = None\<close> stands for \<^verbatim>\<open>ok == false\<close>.
\<close>

record Framework =
  CommandLineParameters :: "string \<Rightarrow> string list"
  HasCommandLineParameter :: "string \<Rightarrow> bool"
  toFloat :: "string \<Rightarrow> real option"
  ParseBool :: "string \<Rightarrow> bool"

definition GetClientExtrapolationTime :: "Framework \<Rightarrow> SyncManager \<Rightarrow> SyncManager" where
  "GetClientExtrapolationTime framework this =
     (let extrapTimeParam = CommandLineParameters framework ''--clientextrapolationtime'' in
      if length extrapTimeParam > 0 then
        (case toFloat framework (hd extrapTimeParam) of
           Some newExtrapTime \<Rightarrow>
             if newExtrapTime \<ge> 0
             then this\<lparr>maxLinExtrapTime := 1 + newExtrapTime / 1000 / updatePeriod this\<rparr>
             else this
         | None \<Rightarrow> this)
      else this)"

definition SetInterestManagementEnabled :: "bool \<Rightarrow> SyncManager \<Rightarrow> SyncManager" where
  "SetInterestManagementEnabled enabled this = this\<lparr>prioritizer := enabled\<rparr>"

definition SyncManager_ctor :: "Framework \<Rightarrow> SyncManager" where
  "SyncManager_ctor framework =
     (let this = \<lparr>updatePeriod = 1 / 20, updateAcc = 0, maxLinExtrapTime = 3,
                  noClientPhysicsHandoff = False, prioUpdateAcc = 0,
                  priorityUpdatePeriod = 1, prioritizer = False\<rparr>;
          imArg = CommandLineParameters framework ''--interestManagement'';
          this = (if imArg \<noteq> [] then SetInterestManagementEnabled (ParseBool framework (last imArg)) this
                  else this);
          this = (if HasCommandLineParameter framework ''--noclientphysics''
                  then this\<lparr>noClientPhysicsHandoff := True\<rparr> else this)
      in GetClientExtrapolationTime framework this)"

definition SetUpdatePeriod :: "Framework \<Rightarrow> real \<Rightarrow> SyncManager \<Rightarrow> SyncManager" where
  "SetUpdatePeriod framework period this =
     (let period = (if period < 1 / 100 then 1 / 100 else period) in
      GetClientExtrapolationTime framework (this\<lparr>updatePeriod := period\<rparr>))"

text \<open>A command line without flags, and two that ask for 100 ms and 250 ms of extrapolation.\<close>

definition no_flags :: Framework where
  "no_flags = \<lparr>CommandLineParameters = (\<lambda>_. []), HasCommandLineParameter = (\<lambda>_. False),
               toFloat = (\<lambda>_. None), ParseBool = (\<lambda>_. False)\<rparr>"

definition extrap_100ms :: Framework where
  "extrap_100ms = \<lparr>CommandLineParameters =
                      (\<lambda>n. if n = ''--clientextrapolationtime'' then [''100''] else []),
                   HasCommandLineParameter = (\<lambda>n. n = ''--clientextrapolationtime''),
                   toFloat = (\<lambda>s. if s = ''100'' then Some 100 else None),
                   ParseBool = (\<lambda>_. False)\<rparr>"

definition extrap_250ms :: Framework where
  "extrap_250ms = \<lparr>CommandLineParameters =
                      (\<lambda>n. if n = ''--clientextrapolationtime'' then [''250''] else []),
                   HasCommandLineParameter = (\<lambda>n. n = ''--clientextrapolationtime''),
                   toFloat = (\<lambda>s. if s = ''250'' then Some 250 else None),
                   ParseBool = (\<lambda>_. False)\<rparr>"

subsection \<open>Identifiers, change kinds and the log\<close>

type_synonym u8 = "8 word"
type_synonym u32 = "32 word"
type_synonym entity_id_t = u32
type_synonym component_id_t = u32
type_synonym packet_id_t = u32

text \<open>\<^verbatim>\<open>AttributeChange::Type\<close>, the change kind every scene mutation takes.\<close>

datatype AttributeChange = Default | Disconnected | LocalOnly | Replicate

text \<open>
  \<^verbatim>\<open>LogWarning\<close> and \<^verbatim>\<open>LogError\<close> append to the log.  An entry keeps the fixed text
  of the message; the numbers and names the source concatenates to it are left out.
\<close>

datatype LogEntry = LogWarning string | LogError string

text \<open>
  The message ids of \<^verbatim>\<open>TundraMessages.h\<close>.
\<close>

definition cLoginMessage :: nat where "cLoginMessage = 100"
definition cLoginReplyMessage :: nat where "cLoginReplyMessage = 101"
definition cClientJoinedMessage :: nat where "cClientJoinedMessage = 102"
definition cClientLeftMessage :: nat where "cClientLeftMessage = 103"
definition cObserverPositionMessage :: nat where "cObserverPositionMessage = 105"
definition cEditEntityPropertiesMessage :: nat where "cEditEntityPropertiesMessage = 109"
definition cCreateEntityMessage :: nat where "cCreateEntityMessage = 110"
definition cCreateComponentsMessage :: nat where "cCreateComponentsMessage = 111"
definition cCreateAttributesMessage :: nat where "cCreateAttributesMessage = 112"
definition cEditAttributesMessage :: nat where "cEditAttributesMessage = 113"
definition cRemoveAttributesMessage :: nat where "cRemoveAttributesMessage = 114"
definition cRemoveComponentsMessage :: nat where "cRemoveComponentsMessage = 115"
definition cRemoveEntityMessage :: nat where "cRemoveEntityMessage = 116"
definition cCreateEntityReplyMessage :: nat where "cCreateEntityReplyMessage = 117"
definition cCreateComponentsReplyMessage :: nat where "cCreateComponentsReplyMessage = 118"
definition cRigidBodyUpdateMessage :: nat where "cRigidBodyUpdateMessage = 119"
definition cEntityActionMessage :: nat where "cEntityActionMessage = 120"
definition cAssetDiscoveryMessage :: nat where "cAssetDiscoveryMessage = 121"
definition cAssetDeletedMessage :: nat where "cAssetDeletedMessage = 122"
definition cRegisterComponentTypeMessage :: nat where "cRegisterComponentTypeMessage = 123"
definition cSetEntityParentMessage :: nat where "cSetEntityParentMessage = 124"

lemmas message_ids =
  cLoginMessage_def cLoginReplyMessage_def cClientJoinedMessage_def cClientLeftMessage_def
  cObserverPositionMessage_def cEditEntityPropertiesMessage_def cCreateEntityMessage_def
  cCreateComponentsMessage_def cCreateAttributesMessage_def cEditAttributesMessage_def
  cRemoveAttributesMessage_def cRemoveComponentsMessage_def cRemoveEntityMessage_def
  cCreateEntityReplyMessage_def cCreateComponentsReplyMessage_def cRigidBodyUpdateMessage_def
  cEntityActionMessage_def cAssetDiscoveryMessage_def cAssetDeletedMessage_def
  cRegisterComponentTypeMessage_def cSetEntityParentMessage_def

subsection \<open>Vectors and transforms\<close>

text \<open>
  \<^verbatim>\<open>float3\<close> and \<^verbatim>\<open>Transform\<close> come from the math library, which is outside the
  sources.  Only the operations the synchronization manager calls are given, over the
  reals: \<^verbatim>\<open>DistanceSq\<close>, \<^verbatim>\<open>LengthSq\<close>, and \<^verbatim>\<open>IsZero(epsilonSq)\<close>, which holds when the
  squared length is at most \<open>epsilonSq\<close>.
\<close>

datatype float3 = float3 real real real

definition float3_zero :: float3 where "float3_zero = float3 0 0 0"

fun LengthSq :: "float3 \<Rightarrow> real" where
  "LengthSq (float3 a b c) = a * a + b * b + c * c"


definition IsZero :: "float3 \<Rightarrow> real \<Rightarrow> bool" where
  "IsZero v epsilonSq = (LengthSq v \<le> epsilonSq)"

record Transform =
  pos :: float3
  rot :: float3
  scale :: float3

subsection \<open>The scene\<close>

text \<open>
  The scene classes (\<^verbatim>\<open>Scene\<close>, \<^verbatim>\<open>Entity\<close>, \<^verbatim>\<open>IComponent\<close>, \<^verbatim>\<open>IAttribute\<close>) are
  collaborators of the synchronization manager whose code is outside the sources; the
  records below hold what the manager reads and writes through their interfaces.

  An attribute's value is kept as its binary image, the bits \<^verbatim>\<open>ToBinary\<close> writes.
  An attribute vector is a list with holes (\<open>None\<close> is a null pointer); the index of an
  attribute is its position.
\<close>

record IAttribute =
  attrTypeId :: u8
  attrName :: string
  attrValue :: "bool list"
  IsDynamic :: bool
  interpolation :: bool

record IComponent =
  TypeId :: u32
  compName :: string
  Attributes :: "IAttribute option list"
  NumStaticAttributes :: nat
  SupportsDynamicAttributes :: bool

text \<open>
  \<^verbatim>\<open>GetComponent<EC_Placeable>()\<close> and \<^verbatim>\<open>GetComponent<EC_RigidBody>()\<close> are typed
  accesses; the two records hold the component id and the attribute values the manager
  reads from these components.
\<close>

record EC_Placeable =
  placeableId :: component_id_t
  placeableTransform :: Transform

record EC_RigidBody =
  rigidBodyId :: component_id_t
  mass :: real
  rbLinearVelocity :: float3
  rbAngularVelocity :: float3

record Entity =
  IsTemporary :: bool
  Parent :: "entity_id_t option"
  Components :: "component_id_t \<rightharpoonup> IComponent"
  ecPlaceable :: "EC_Placeable option"
  ecRigidBody :: "EC_RigidBody option"

subsection \<open>Sync state and connections\<close>

text \<open>
  \<^verbatim>\<open>EntityAction::ExecType\<close>: the specification gives the values
  \<open>Local = 1\<close>, \<open>Server = 2\<close>, \<open>Peers = 4\<close>.
\<close>

definition Local :: u8 where "Local = 1"
definition Server :: u8 where "Server = 2"
definition Peers :: u8 where "Peers = 4"

text \<open>
  \<^verbatim>\<open>MsgEntityAction\<close>.  Names and parameters are byte buffers in the source, converted
  with \<^verbatim>\<open>BufferToString\<close> and \<^verbatim>\<open>StringToBuffer\<close>; here both sides are strings.
\<close>

record MsgEntityAction =
  entityId :: u32
  executionType :: u8
  actionName :: string
  parameters :: "string list"

record ComponentSyncState =
  compIsNew :: bool
  compRemoved :: bool
  compIsInQueue :: bool
  dirtyAttributes :: "nat \<Rightarrow> u8"
  newAndRemovedAttributes :: "u8 \<rightharpoonup> bool"

record EntitySyncState =
  isNew :: bool
  removed :: bool
  isInQueue :: bool
  hasPropertyChanges :: bool
  hasParentChange :: bool
  components :: "component_id_t \<rightharpoonup> ComponentSyncState"
  compDirtyQueue :: "component_id_t list"
  lastNetworkSendTime :: real
  transform :: Transform
  linearVelocity :: float3
  angularVelocity :: float3
  avgUpdateInterval :: real
  priority :: real

datatype Quat = Quat real real real real

record RigidBodyState =
  statePos :: float3
  stateRot :: Quat
  stateScale :: float3
  vel :: float3
  angVel :: float3

record RigidBodyInterpolationState =
  interpStart :: RigidBodyState
  interpEnd :: RigidBodyState
  interpTime :: real
  interpolatorActive :: bool
  lastReceivedPacketCounter :: packet_id_t

record SceneSyncState =
  entities :: "entity_id_t \<rightharpoonup> EntitySyncState"
  dirtyQueue :: "entity_id_t list"
  queuedActions :: "MsgEntityAction list"
  entityInterpolations :: "entity_id_t \<rightharpoonup> RigidBodyInterpolationState"

text \<open>
  How a connection carries its messages: a kNet connection over UDP or TCP, a kNet
  connection without a socket, or a connection of another kind (a web client).
\<close>

datatype Transport = SocketOverUDP | SocketOverTCP | NoSocket | NotKNet

text \<open>
  \<^verbatim>\<open>float3x3\<close>, by its columns 0, 1 and 2.
\<close>

datatype float3x3 = float3x3 float3 float3 float3

text \<open>
  One entity's part of a RigidBodyUpdate message as \<^verbatim>\<open>ReplicateRigidBodyChanges\<close> hands
  it to the serializer: the entity id, the five send types, and the values the fields
  are written from.
\<close>

record RigidBodyRecord =
  sentId :: entity_id_t
  sentPosType :: nat
  sentRotType :: nat
  sentScaleType :: nat
  sentVelType :: nat
  sentAngVelType :: nat
  sentTransform :: Transform
  sentRot :: float3x3
  sentLinearVel :: float3
  sentAngVel :: float3

text \<open>What \<^verbatim>\<open>UserConnection::Send\<close> was given.\<close>

datatype Payload =
    Bits "bool list"
  | RigidBodies "RigidBodyRecord list"
  | Action MsgEntityAction
  | CreateReply entity_id_t entity_id_t "(component_id_t \<times> component_id_t) list"
  | ComponentsReply entity_id_t "(component_id_t \<times> component_id_t) list"

record NetMessage =
  msgId :: nat
  reliable :: bool
  inOrder :: bool
  payload :: Payload

record UserConnection =
  authenticated :: bool
  protocolVersion :: nat
  transport :: Transport
  unackedIdsToRealIds :: "entity_id_t \<rightharpoonup> entity_id_t"
  syncState :: "SceneSyncState option"
  disconnected :: bool
  sent :: "NetMessage list"

text \<open>
  A connection is a pointer in the source.  The server's connections are the elements of
  \<^verbatim>\<open>UserConnections()\<close>, named by their position; \<^verbatim>\<open>serverConnection_\<close> is the client's
  connection to the server.
\<close>

datatype ConnRef = ServerConnection | User nat

text \<open>A call of an entity action: the entity, the action and its parameters.\<close>

type_synonym Execution = "entity_id_t \<times> string \<times> string list"

text \<open>
  The state the handlers work on: the registered scene (\<open>None\<close> when \<^verbatim>\<open>scene_\<close> has
  expired), the server's connections, the client's connection, the log, the entity
  actions executed locally, the server's current action sender, and whether
  \<^verbatim>\<open>GetClient()->GetConnection()\<close> is set.
\<close>

record World =
  IsServer :: bool
  scene :: "(entity_id_t \<rightharpoonup> Entity) option"
  UserConnections :: "UserConnection list"
  serverConnection :: UserConnection
  logged :: "LogEntry list"
  executed :: "Execution list"
  actionSender :: "ConnRef option"
  clientConnected :: bool

definition getConnection :: "World \<Rightarrow> ConnRef \<Rightarrow> UserConnection" where
  "getConnection w c =
     (case c of ServerConnection \<Rightarrow> serverConnection w | User i \<Rightarrow> UserConnections w ! i)"

definition setConnection :: "ConnRef \<Rightarrow> UserConnection \<Rightarrow> World \<Rightarrow> World" where
  "setConnection c u w =
     (case c of ServerConnection \<Rightarrow> w\<lparr>serverConnection := u\<rparr>
      | User i \<Rightarrow> w\<lparr>UserConnections := (UserConnections w)[i := u]\<rparr>)"

definition Log :: "LogEntry \<Rightarrow> World \<Rightarrow> World" where
  "Log e w = w\<lparr>logged := logged w @ [e]\<rparr>"

text \<open>
  How a call ends: it returns, it throws \<^verbatim>\<open>kNet::NetException\<close> (the state reached so
  far stays), or it dereferences a null pointer, after which nothing is known.
\<close>

datatype 'a outcome = Returns 'a | Throws 'a | NullDereference

subsection \<open>Entity actions\<close>

text \<open>
  \<^verbatim>\<open>UserConnection::Send\<close> and \<^verbatim>\<open>UserConnection::Disconnect\<close>.
\<close>

definition Send :: "ConnRef \<Rightarrow> NetMessage \<Rightarrow> World \<Rightarrow> World" where
  "Send c m w = (let u = getConnection w c in setConnection c (u\<lparr>sent := sent u @ [m]\<rparr>) w)"

definition Disconnect :: "ConnRef \<Rightarrow> World \<Rightarrow> World" where
  "Disconnect c w = setConnection c ((getConnection w c)\<lparr>disconnected := True\<rparr>) w"

text \<open>
  The loop of \<^verbatim>\<open>OnActionTriggered\<close> over the server's connections: the action is queued
  for each authenticated connection.  \<^verbatim>\<open>c->syncState->queuedActions\<close> dereferences the
  sync state, which is null for a connection that has none.
\<close>

fun queueToAuthenticated :: "MsgEntityAction \<Rightarrow> UserConnection list \<Rightarrow> UserConnection list option" where
  "queueToAuthenticated msg [] = Some []"
| "queueToAuthenticated msg (c # cs) =
     (if authenticated c = True then
        (case syncState c of
           None \<Rightarrow> None
         | Some st \<Rightarrow>
             map_option (Cons (c\<lparr>syncState := Some (st\<lparr>queuedActions := queuedActions st @ [msg]\<rparr>)\<rparr>))
               (queueToAuthenticated msg cs))
      else map_option (Cons c) (queueToAuthenticated msg cs))"

text \<open>
  Modelled from the spec: \<^verbatim>\<open>Entity::Exec\<close> is outside the sources.  The scene model
  offers "execute entity action" and emits the signal "action triggered", which
  \<^verbatim>\<open>RegisterToScene\<close> connects to \<^verbatim>\<open>OnActionTriggered\<close>: \<open>Exec\<close> runs the action locally when
  the \<open>Local\<close> bit is set and then signals.

  \<^verbatim>\<open>SyncManager::OnActionTriggered\<close> follows the source.
\<close>

function Exec :: "entity_id_t \<Rightarrow> u8 \<Rightarrow> string \<Rightarrow> string list \<Rightarrow> World \<Rightarrow> World outcome"
  and OnActionTriggered :: "entity_id_t \<Rightarrow> string \<Rightarrow> string list \<Rightarrow> u8 \<Rightarrow> World \<Rightarrow> World outcome"
where
  "Exec entity type action params w =
     OnActionTriggered entity action params type
       (if type AND Local \<noteq> 0 then w\<lparr>executed := executed w @ [(entity, action, params)]\<rparr> else w)"
| "OnActionTriggered entity action params type w =
     (let isServer = IsServer w in
      case (if isServer \<and> type AND Server \<noteq> 0 then Exec entity Local action params w
            else Returns w) of
        Returns w \<Rightarrow>
          (let msg = \<lparr>entityId = entity, executionType = 0, actionName = action,
                      parameters = params\<rparr>;
               w = (if \<not> isServer \<and> (type AND Server \<noteq> 0 \<or> type AND Peers \<noteq> 0) \<and> clientConnected w
                    then Send ServerConnection
                           \<lparr>msgId = cEntityActionMessage, reliable = True, inOrder = True,
                            payload = Action (msg\<lparr>executionType := type AND NOT Local\<rparr>)\<rparr> w
                    else w)
           in if isServer \<and> type AND Peers \<noteq> 0 then
                (case queueToAuthenticated (msg\<lparr>executionType := Local\<rparr>) (UserConnections w) of
                   None \<Rightarrow> NullDereference
                 | Some cs \<Rightarrow> Returns (w\<lparr>UserConnections := cs\<rparr>))
              else Returns w)
      | other \<Rightarrow> other)"
  by pat_completeness auto
termination
  by (relation "measure (\<lambda>x. case x of
        Inl (entity, type, action, params, w) \<Rightarrow> (if type AND Server \<noteq> 0 then 4 else 2)
      | Inr (entity, action, params, type, w) \<Rightarrow> (if type AND Server \<noteq> 0 then 3 else 1))")
     (auto simp: Local_def Server_def)

declare Exec.simps [simp del] OnActionTriggered.simps [simp del]

text \<open>
  The loop of \<^verbatim>\<open>HandleEntityAction\<close> over the server's connections: the action is queued
  for every connection but the sender.  \<open>i\<close> is the position of the head of the list.
\<close>

fun queueToPeers :: "nat \<Rightarrow> ConnRef \<Rightarrow> MsgEntityAction \<Rightarrow> UserConnection list \<Rightarrow> UserConnection list option" where
  "queueToPeers i source msg [] = Some []"
| "queueToPeers i source msg (userConn # cs) =
     (if User i \<noteq> source then
        (case syncState userConn of
           None \<Rightarrow> None
         | Some st \<Rightarrow>
             map_option (Cons (userConn\<lparr>syncState := Some (st\<lparr>queuedActions := queuedActions st @ [msg]\<rparr>)\<rparr>))
               (queueToPeers (Suc i) source msg cs))
      else map_option (Cons userConn) (queueToPeers (Suc i) source msg cs))"

definition HandleEntityAction :: "ConnRef \<Rightarrow> MsgEntityAction \<Rightarrow> World \<Rightarrow> World outcome" where
  "HandleEntityAction source msg w =
     (case scene w of
        None \<Rightarrow> Returns (Log (LogWarning ''SyncManager: Ignoring received MsgEntityAction as no scene exists!'') w)
      | Some sc \<Rightarrow>
        (case sc (entityId msg) of
           None \<Rightarrow> Returns (Log (LogWarning ''Entity not found for EntityAction message'') w)
         | Some entity \<Rightarrow>
           (let isServer = IsServer w;
                w = (if isServer then w\<lparr>actionSender := Some source\<rparr> else w);
                action = actionName msg;
                params = parameters msg;
                type = executionType msg;
                local = (type AND Local \<noteq> 0 \<or> (isServer \<and> type AND Server \<noteq> 0));
                peers = (isServer \<and> type AND Peers \<noteq> 0)
            in case (if local then Exec (entityId msg) Local action params w else Returns w) of
                 Returns w \<Rightarrow>
                   (case (if peers
                          then map_option (\<lambda>cs. w\<lparr>UserConnections := cs\<rparr>)
                                 (queueToPeers 0 source (msg\<lparr>executionType := Local\<rparr>) (UserConnections w))
                          else Some w) of
                      None \<Rightarrow> NullDereference
                    | Some w \<Rightarrow>
                        (let handled = (local \<or> peers);
                             w = (if \<not> handled
                                  then Log (LogWarning ''SyncManager: Received MsgEntityAction message, but it went unhandled because of its type'') w
                                  else w)
                         in Returns (w\<lparr>actionSender := None\<rparr>)))
               | other \<Rightarrow> other)))"

subsection \<open>Dispatch of received messages\<close>

text \<open>
  \<^verbatim>\<open>HandleNetworkMessage\<close> switches on the message id and calls one handler.  The
  handlers are a parameter here, so that what is said of the switch holds whatever they
  do; the handlers embedded in this development are put in their places further below.
  \<open>DeserializeEntityAction\<close> is the constructor \<^verbatim>\<open>MsgEntityAction(data, numBytes)\<close>, whose
  code is outside the sources; \<open>None\<close> stands for its throwing.

  The bytes of a message are given as the bits a \<^verbatim>\<open>kNet::DataDeserializer\<close> reads from
  them, in reading order.
\<close>

type_synonym Data = "bool list"
type_synonym Handler = "ConnRef \<Rightarrow> Data \<Rightarrow> World \<Rightarrow> World outcome"

record Handlers =
  hObserverPosition :: Handler
  hCreateEntity :: Handler
  hCreateComponents :: Handler
  hCreateAttributes :: Handler
  hEditAttributes :: Handler
  hRemoveAttributes :: Handler
  hRemoveComponents :: Handler
  hRemoveEntity :: Handler
  hCreateEntityReply :: Handler
  hCreateComponentsReply :: Handler
  hRigidBodyChanges :: "ConnRef \<Rightarrow> packet_id_t \<Rightarrow> Data \<Rightarrow> World \<Rightarrow> World outcome"
  hEditEntityProperties :: Handler
  hSetEntityParent :: Handler
  DeserializeEntityAction :: "Data \<Rightarrow> MsgEntityAction option"
  hRegisterComponentType :: Handler

definition HandleNetworkMessage_switch ::
  "Handlers \<Rightarrow> ConnRef \<Rightarrow> packet_id_t \<Rightarrow> nat \<Rightarrow> Data \<Rightarrow> World \<Rightarrow> World outcome" where
  "HandleNetworkMessage_switch hs user packetId messageId data w =
     (if messageId = cObserverPositionMessage then hObserverPosition hs user data w
      else if messageId = cCreateEntityMessage then hCreateEntity hs user data w
      else if messageId = cCreateComponentsMessage then hCreateComponents hs user data w
      else if messageId = cCreateAttributesMessage then hCreateAttributes hs user data w
      else if messageId = cEditAttributesMessage then hEditAttributes hs user data w
      else if messageId = cRemoveAttributesMessage then hRemoveAttributes hs user data w
      else if messageId = cRemoveComponentsMessage then hRemoveComponents hs user data w
      else if messageId = cRemoveEntityMessage then hRemoveEntity hs user data w
      else if messageId = cCreateEntityReplyMessage then hCreateEntityReply hs user data w
      else if messageId = cCreateComponentsReplyMessage then hCreateComponentsReply hs user data w
      else if messageId = cRigidBodyUpdateMessage then hRigidBodyChanges hs user packetId data w
      else if messageId = cEditEntityPropertiesMessage then hEditEntityProperties hs user data w
      else if messageId = cSetEntityParentMessage then hSetEntityParent hs user data w
      else if messageId = cEntityActionMessage then
        (case DeserializeEntityAction hs data of
           None \<Rightarrow> Throws w
         | Some msg \<Rightarrow> HandleEntityAction user msg w)
      else if messageId = cRegisterComponentTypeMessage then hRegisterComponentType hs user data w
      else Returns w)"

definition HandleNetworkMessage ::
  "Handlers \<Rightarrow> ConnRef option \<Rightarrow> packet_id_t \<Rightarrow> nat \<Rightarrow> Data \<Rightarrow> World \<Rightarrow> World outcome" where
  "HandleNetworkMessage hs user packetId messageId data w =
     (case user of
        None \<Rightarrow> Returns w
      | Some u \<Rightarrow>
          if scene w = None then Returns w
          else
            (case HandleNetworkMessage_switch hs u packetId messageId data w of
               Throws w' \<Rightarrow>
                 Returns (Disconnect u
                   (Log (LogError ''Exception while handling scene sync network message'') w'))
             | other \<Rightarrow> other))"

text \<open>The message ids the switch has a case for.\<close>

definition handled_ids :: "nat set" where
  "handled_ids =
     {cObserverPositionMessage, cCreateEntityMessage, cCreateComponentsMessage,
      cCreateAttributesMessage, cEditAttributesMessage, cRemoveAttributesMessage,
      cRemoveComponentsMessage, cRemoveEntityMessage, cCreateEntityReplyMessage,
      cCreateComponentsReplyMessage, cRigidBodyUpdateMessage, cEditEntityPropertiesMessage,
      cSetEntityParentMessage, cEntityActionMessage, cRegisterComponentTypeMessage}"

subsection \<open>Receiving rigid-body updates\<close>

text \<open>
  Functions of libraries outside the sources, taken as they are: the conversions between
  a transform's Euler rotation and a quaternion (\<^verbatim>\<open>Transform::Orientation\<close>,
  \<^verbatim>\<open>Transform::SetOrientation\<close>), kNet's comparison of packet ids
  (\<^verbatim>\<open>kNet::PacketIDIsNewerThan(newID, oldID)\<close>), and the bit-level decoding of the body
  of a RigidBodyUpdate message (see \<open>RigidBodyUpdate\<close> below).
\<close>

definition Quat_identity :: Quat where "Quat_identity = Quat 0 0 0 1"

fun smul :: "real \<Rightarrow> float3 \<Rightarrow> float3" where
  "smul k (float3 a b c) = float3 (k * a) (k * b) (k * c)"

fun vadd :: "float3 \<Rightarrow> float3 \<Rightarrow> float3" where
  "vadd (float3 a b c) (float3 a' b' c') = float3 (a + a') (b + b') (c + c')"

definition HermiteDerivative :: "float3 \<Rightarrow> float3 \<Rightarrow> float3 \<Rightarrow> float3 \<Rightarrow> real \<Rightarrow> float3" where
  "HermiteDerivative pos0 vel0 pos1 vel1 t =
     (let tt = t * t;
          h1 = 6 * (tt - t);
          h2 = - h1;
          h3 = 3 * tt - 4 * t + 1;
          h4 = 3 * tt - 2 * t
      in vadd (vadd (vadd (smul h1 pos0) (smul h2 pos1)) (smul h3 vel0)) (smul h4 vel1))"

text \<open>
  One entity's part of a RigidBodyUpdate message, as the loop of
  \<^verbatim>\<open>HandleRigidBodyChanges\<close> reads it: the entity id, the five send types of the
  arithmetic-coded header, and the values read for the fields that were sent.
  \<open>wireAngVel\<close> is \<open>None\<close> when the quantized angle read is 0, in which case the source
  leaves \<^verbatim>\<open>newAngVel\<close> as it is.
\<close>

record RigidBodyUpdate =
  wireEntityID :: u32
  posSendType :: nat
  rotSendType :: nat
  scaleSendType :: nat
  velSendType :: nat
  angVelSendType :: nat
  wirePos :: float3
  wireRot :: Quat
  wireScale :: float3
  wireVel :: float3
  wireAngVel :: "float3 option"

text \<open>
  \<open>DeserializeRigidBodies\<close> gives the parts read from a message body while at least 9
  bits are left, and whether the deserializer throws after the last of them.
\<close>

record Library =
  Orientation :: "Transform \<Rightarrow> Quat"
  SetOrientation :: "Quat \<Rightarrow> Transform \<Rightarrow> Transform"
  PacketIDIsNewerThan :: "packet_id_t \<Rightarrow> packet_id_t \<Rightarrow> bool"
  DeserializeRigidBodies :: "Data \<Rightarrow> RigidBodyUpdate list \<times> bool"

definition setInterpolation ::
  "entity_id_t \<Rightarrow> RigidBodyInterpolationState \<Rightarrow> SceneSyncState \<Rightarrow> World \<Rightarrow> World" where
  "setInterpolation entityID interp st w =
     w\<lparr>serverConnection := (serverConnection w)
         \<lparr>syncState := Some (st\<lparr>entityInterpolations := (entityInterpolations st)(entityID \<mapsto> interp)\<rparr>)\<rparr>\<rparr>"

text \<open>
  The values one part of the message gives (lines 1229 to 1279 of the source): the
  transform \<^verbatim>\<open>t\<close>, \<^verbatim>\<open>newLinearVel\<close> and \<^verbatim>\<open>newAngVel\<close>.  A field that was not sent
  keeps the entity's value, but the orientation is set from \<^verbatim>\<open>rot\<close> in any case.
\<close>

definition readRigidBody ::
  "Library \<Rightarrow> EC_Placeable \<Rightarrow> EC_RigidBody option \<Rightarrow> RigidBodyInterpolationState option \<Rightarrow>
   RigidBodyUpdate \<Rightarrow> Transform \<times> float3 \<times> float3" where
  "readRigidBody lib pl rigidBody iter r =
     (let t = placeableTransform pl;
          newLinearVel = (case rigidBody of Some rb \<Rightarrow> rbLinearVelocity rb | None \<Rightarrow> float3_zero);
          newLinearVel = (case iter of Some i \<Rightarrow> vel (interpEnd i) | None \<Rightarrow> newLinearVel);
          t = (if posSendType r = 1 \<or> posSendType r = 2 then t\<lparr>pos := wirePos r\<rparr> else t);
          rot = (if rotSendType r = 1 \<or> rotSendType r = 2 \<or> rotSendType r = 3
                 then wireRot r else Quat_identity);
          t = SetOrientation lib rot t;
          t = (if scaleSendType r = 1 \<or> scaleSendType r = 2 then t\<lparr>scale := wireScale r\<rparr> else t);
          newLinearVel = (if velSendType r = 1 \<or> velSendType r = 2 then wireVel r else newLinearVel);
          newAngVel = (case rigidBody of Some rb \<Rightarrow> rbAngularVelocity rb | None \<Rightarrow> float3_zero);
          newAngVel = (if angVelSendType r = 1
                       then (case wireAngVel r of Some v \<Rightarrow> v | None \<Rightarrow> newAngVel)
                       else newAngVel)
      in (t, newLinearVel, newAngVel))"

text \<open>The update of an existing interpolation state (lines 1303 to 1334).\<close>

definition updateInterpolation ::
  "Library \<Rightarrow> SyncManager \<Rightarrow> packet_id_t \<Rightarrow> EC_RigidBody option \<Rightarrow> Transform \<Rightarrow>
   RigidBodyUpdate \<Rightarrow> Transform \<times> float3 \<times> float3 \<Rightarrow> RigidBodyInterpolationState \<Rightarrow>
   RigidBodyInterpolationState" where
  "updateInterpolation lib this packetId rigidBody orig r tv interp =
     (case tv of (t, newLinearVel, newAngVel) \<Rightarrow>
      let interpPeriod = updatePeriod this;
          curVel = (if interpTime interp < 1
                    then HermiteDerivative (statePos (interpStart interp))
                           (smul interpPeriod (vel (interpStart interp)))
                           (statePos (interpEnd interp))
                           (smul interpPeriod (vel (interpEnd interp)))
                           (interpTime interp)
                    else vel (interpEnd interp));
          curAngVel = float3_zero;
          isNewtonian = (case rigidBody of Some rb \<Rightarrow> mass rb > 0 | None \<Rightarrow> False);
          iEnd = interpEnd interp;
          iEnd = (if posSendType r \<noteq> 0 then iEnd\<lparr>statePos := pos t\<rparr> else iEnd);
          iEnd = (if rotSendType r \<noteq> 0 then iEnd\<lparr>stateRot := Orientation lib t\<rparr> else iEnd);
          iEnd = (if scaleSendType r \<noteq> 0 then iEnd\<lparr>stateScale := scale t\<rparr> else iEnd);
          iEnd = (if velSendType r \<noteq> 0 then iEnd\<lparr>vel := newLinearVel\<rparr> else iEnd);
          iEnd = (if angVelSendType r \<noteq> 0 then iEnd\<lparr>angVel := newAngVel\<rparr> else iEnd);
          iStart = \<lparr>statePos = pos orig, stateRot = Orientation lib orig,
                    stateScale = scale orig, vel = curVel, angVel = curAngVel\<rparr>
      in \<lparr>interpStart = (if isNewtonian then iStart else iStart\<lparr>vel := float3_zero\<rparr>),
          interpEnd = (if isNewtonian then iEnd else iEnd\<lparr>vel := float3_zero\<rparr>),
          interpTime = 0, interpolatorActive = True,
          lastReceivedPacketCounter = packetId\<rparr>)"

text \<open>The interpolation state of an entity that had none (lines 1338 to 1351).\<close>

definition createInterpolation ::
  "Library \<Rightarrow> packet_id_t \<Rightarrow> EC_RigidBody option \<Rightarrow> Transform \<Rightarrow>
   Transform \<times> float3 \<times> float3 \<Rightarrow> RigidBodyInterpolationState" where
  "createInterpolation lib packetId rigidBody orig tv =
     (case tv of (t, newLinearVel, newAngVel) \<Rightarrow>
      \<lparr>interpStart =
         \<lparr>statePos = pos orig, stateRot = Orientation lib orig, stateScale = scale orig,
          vel = (case rigidBody of Some rb \<Rightarrow> rbLinearVelocity rb | None \<Rightarrow> float3_zero),
          angVel = (case rigidBody of Some rb \<Rightarrow> rbAngularVelocity rb | None \<Rightarrow> float3_zero)\<rparr>,
       interpEnd =
         \<lparr>statePos = pos t, stateRot = Orientation lib t, stateScale = scale t,
          vel = newLinearVel, angVel = newAngVel\<rparr>,
       interpTime = 0, interpolatorActive = True,
       lastReceivedPacketCounter = packetId\<rparr>)"

text \<open>
  The body of the loop of \<^verbatim>\<open>HandleRigidBodyChanges\<close> for one entity; \<open>None\<close> is a null
  dereference (\<^verbatim>\<open>serverConnection_->syncState\<close> or \<^verbatim>\<open>placeable\<close> is null).
\<close>

definition HandleRigidBodyChange ::
  "Library \<Rightarrow> SyncManager \<Rightarrow> ConnRef \<Rightarrow> packet_id_t \<Rightarrow> (entity_id_t \<rightharpoonup> Entity) \<Rightarrow>
   RigidBodyUpdate \<Rightarrow> World \<Rightarrow> World option" where
  "HandleRigidBodyChange lib this source packetId sc r w =
     (case syncState (serverConnection w) of
        None \<Rightarrow> None
      | Some st \<Rightarrow>
        (case sc (wireEntityID r) of
           None \<Rightarrow> Some w
         | Some e \<Rightarrow>
           (case ecPlaceable e of
              None \<Rightarrow> None
            | Some pl \<Rightarrow>
              (let tv = readRigidBody lib pl (ecRigidBody e) (entityInterpolations st (wireEntityID r)) r
               in if posSendType r \<noteq> 0 \<or> rotSendType r \<noteq> 0 \<or> scaleSendType r \<noteq> 0 \<or>
                     velSendType r \<noteq> 0 \<or> angVelSendType r \<noteq> 0
                  then
                    (let orig = placeableTransform pl in
                     case entityInterpolations st (wireEntityID r) of
                       Some interp \<Rightarrow>
                         if transport (getConnection w source) = SocketOverUDP \<and>
                            PacketIDIsNewerThan lib (lastReceivedPacketCounter interp) packetId
                         then Some w
                         else Some (setInterpolation (wireEntityID r)
                                (updateInterpolation lib this packetId (ecRigidBody e) orig r tv interp) st w)
                     | None \<Rightarrow>
                         Some (setInterpolation (wireEntityID r)
                                (createInterpolation lib packetId (ecRigidBody e) orig tv) st w))
                  else Some w))))"

fun HandleRigidBodyChanges_loop ::
  "Library \<Rightarrow> SyncManager \<Rightarrow> ConnRef \<Rightarrow> packet_id_t \<Rightarrow> (entity_id_t \<rightharpoonup> Entity) \<Rightarrow>
   RigidBodyUpdate list \<Rightarrow> World \<Rightarrow> World option" where
  "HandleRigidBodyChanges_loop lib this source packetId sc [] w = Some w"
| "HandleRigidBodyChanges_loop lib this source packetId sc (r # rs) w =
     (case HandleRigidBodyChange lib this source packetId sc r w of
        None \<Rightarrow> None
      | Some w' \<Rightarrow> HandleRigidBodyChanges_loop lib this source packetId sc rs w')"

definition HandleRigidBodyChanges ::
  "Library \<Rightarrow> SyncManager \<Rightarrow> ConnRef \<Rightarrow> packet_id_t \<Rightarrow> Data \<Rightarrow> World \<Rightarrow> World outcome" where
  "HandleRigidBodyChanges lib this source packetId data w =
     (case scene w of
        None \<Rightarrow> Returns w
      | Some sc \<Rightarrow>
          (case DeserializeRigidBodies lib data of
             (records, throws) \<Rightarrow>
               (case HandleRigidBodyChanges_loop lib this source packetId sc records w of
                  None \<Rightarrow> NullDereference
                | Some w' \<Rightarrow> if throws then Throws w' else Returns w')))"

text \<open>The state a call leaves, when there is one.\<close>

fun stateOf :: "'a outcome \<Rightarrow> 'a option" where
  "stateOf (Returns w) = Some w"
| "stateOf (Throws w) = Some w"
| "stateOf NullDereference = None"

subsection \<open>Sending rigid-body updates\<close>










text \<open>
  What \<^verbatim>\<open>ReplicateRigidBodyChanges\<close> takes from code outside the sources:
  \<^verbatim>\<open>EntitySyncState::ComputePrioritizedUpdateInterval\<close>, \<^verbatim>\<open>Transform::Orientation3x3\<close>,
  \<^verbatim>\<open>DegToRad\<close>, and the number of bits the serializer takes for one entity's part.
  The clock is read once: \<open>now\<close> is the time of the pass, and
  \<^verbatim>\<open>kNet::Clock::SecondsSinceF(tick)\<close> is \<open>now - tick\<close>.
\<close>

record Encoding =
  ComputePrioritizedUpdateInterval :: "EntitySyncState \<Rightarrow> real \<Rightarrow> real"
  Orientation3x3 :: "Transform \<Rightarrow> float3x3"
  DegToRad :: "float3 \<Rightarrow> float3"
  recordBits :: "RigidBodyRecord \<Rightarrow> nat"

text \<open>
  Lines 1056 to 1103: the dirty bits of the transform (attribute 0 of the placeable) and
  of the linear and angular velocity (bits 5 and 6 of the second byte of the rigid body's
  dirty attributes, that is attributes 13 and 14) are read and cleared.  The result is
  the entity's sync state, \<^verbatim>\<open>transformDirty\<close>, \<^verbatim>\<open>velocityDirty\<close>,
  \<^verbatim>\<open>angularVelocityDirty\<close>, and whether \<^verbatim>\<open>msgReliable\<close> was set.
\<close>

definition clearBits :: "nat \<Rightarrow> u8 \<Rightarrow> ComponentSyncState \<Rightarrow> ComponentSyncState" where
  "clearBits byte m cs = cs\<lparr>dirtyAttributes := (dirtyAttributes cs)(byte := dirtyAttributes cs byte AND NOT m)\<rparr>"




text \<open>Lines 1169 to 1210: what the sync state remembers of a record that was written.\<close>

definition rememberSent :: "real \<Rightarrow> RigidBodyRecord \<Rightarrow> EntitySyncState \<Rightarrow> EntitySyncState" where
  "rememberSent now r ess =
     (let ess = (if sentVelType r = 1 \<or> sentVelType r = 2
                 then ess\<lparr>linearVelocity := sentLinearVel r\<rparr> else ess);
          ess = (if sentAngVelType r = 1 then ess\<lparr>angularVelocity := sentAngVel r\<rparr> else ess);
          ess = (if sentPosType r \<noteq> 0
                 then ess\<lparr>transform := (transform ess)\<lparr>pos := pos (sentTransform r)\<rparr>\<rparr> else ess);
          ess = (if sentRotType r \<noteq> 0
                 then ess\<lparr>transform := (transform ess)\<lparr>rot := rot (sentTransform r)\<rparr>\<rparr> else ess);
          ess = (if sentScaleType r \<noteq> 0
                 then ess\<lparr>transform := (transform ess)\<lparr>scale := scale (sentTransform r)\<rparr>\<rparr> else ess)
      in ess\<lparr>lastNetworkSendTime := now\<rparr>)"

text \<open>
  The state of the loop: the serializer \<^verbatim>\<open>ds\<close> (the records written to the message
  being assembled), \<^verbatim>\<open>msgReliable\<close>, the messages sent so far, and the entities' sync states.
\<close>

record RigidBodyPass =
  ds :: "RigidBodyRecord list"
  msgReliable :: bool
  outbox :: "NetMessage list"
  passEntities :: "entity_id_t \<rightharpoonup> EntitySyncState"

definition BitsFilled :: "Encoding \<Rightarrow> RigidBodyRecord list \<Rightarrow> nat" where
  "BitsFilled enc rs = sum_list (map (recordBits enc) rs)"

definition rigidBodyMessage :: "bool \<Rightarrow> RigidBodyRecord list \<Rightarrow> NetMessage" where
  "rigidBodyMessage rel rs =
     \<lparr>msgId = cRigidBodyUpdateMessage, reliable = rel, inOrder = True, payload = RigidBodies rs\<rparr>"

text \<open>Lines 1038 to 1045: a full message is sent and a new one is started.\<close>

definition flushIfFull :: "Encoding \<Rightarrow> RigidBodyPass \<Rightarrow> RigidBodyPass" where
  "flushIfFull enc p =
     (if (1400 * 8 :: int) - int (BitsFilled enc (ds p)) \<le> 350
      then p\<lparr>outbox := outbox p @ [rigidBodyMessage (msgReliable p) (ds p)], ds := [],
             msgReliable := False\<rparr>
      else p)"





text \<open>
  A component sync state that exists and is neither new nor removed: the condition under
  which the pass reads and clears a component's dirty bits.
\<close>

definition liveState :: "EntitySyncState \<Rightarrow> component_id_t \<Rightarrow> bool" where
  "liveState ess cid =
     (case components ess cid of None \<Rightarrow> False | Some cs \<Rightarrow> \<not> compIsNew cs \<and> \<not> compRemoved cs)"

text \<open>The entity parts a RigidBodyUpdate message holds.\<close>

definition recordsOf :: "NetMessage \<Rightarrow> RigidBodyRecord list" where
  "recordsOf m = (case payload m of RigidBodies rs \<Rightarrow> rs | _ \<Rightarrow> [])"

text \<open>
  The conditions under which lines 1086 to 1100 are reached for an entity of the dirty
  queue: the entity is neither new nor removed, the scene has it, it has a placeable and
  a rigid body, and the rigid body's component sync state is live.  Then the entity comes
  to rest when its linear (or angular) velocity is zero within \<open>1e-4\<close> while the last
  velocity sent is not (lines 1091 and 1096).
\<close>

definition restCandidate ::
  "(entity_id_t \<rightharpoonup> Entity) \<Rightarrow> (entity_id_t \<rightharpoonup> EntitySyncState) \<Rightarrow> entity_id_t \<Rightarrow>
   (EntitySyncState \<times> EC_RigidBody) option" where
  "restCandidate sc es eid =
     (case es eid of
        None \<Rightarrow> None
      | Some ess \<Rightarrow>
          if isNew ess \<or> removed ess then None
          else
            (case sc eid of
               None \<Rightarrow> None
             | Some e \<Rightarrow>
               (case ecPlaceable e of
                  None \<Rightarrow> None
                | Some placeable \<Rightarrow>
                  (case ecRigidBody e of
                     None \<Rightarrow> None
                   | Some rb \<Rightarrow> if liveState ess (rigidBodyId rb) then Some (ess, rb) else None))))"

definition comesToRestLinear ::
  "(entity_id_t \<rightharpoonup> Entity) \<Rightarrow> (entity_id_t \<rightharpoonup> EntitySyncState) \<Rightarrow> entity_id_t \<Rightarrow> bool" where
  "comesToRestLinear sc es eid =
     (case restCandidate sc es eid of
        None \<Rightarrow> False
      | Some (ess, rb) \<Rightarrow>
          IsZero (rbLinearVelocity rb) (1 / 10000) \<and> \<not> IsZero (linearVelocity ess) (1 / 10000))"

definition comesToRestAngular ::
  "(entity_id_t \<rightharpoonup> Entity) \<Rightarrow> (entity_id_t \<rightharpoonup> EntitySyncState) \<Rightarrow> entity_id_t \<Rightarrow> bool" where
  "comesToRestAngular sc es eid =
     (case restCandidate sc es eid of
        None \<Rightarrow> False
      | Some (ess, rb) \<Rightarrow>
          IsZero (rbAngularVelocity rb) (1 / 10000) \<and> \<not> IsZero (angularVelocity ess) (1 / 10000))"








subsection \<open>Bit streams\<close>

text \<open>
  Modelled from the spec: the bit codec is kNet's, outside the sources.  It "supports
  bit-addressed writes and reads into a byte buffer" and "never aligns".  A serializer is the list
  of bits written so far, a deserializer the list of bits left; a read beyond the end
  throws \<^verbatim>\<open>kNet::NetException\<close> (\<open>None\<close>).  An unsigned integer is written from its
  least significant bit.
\<close>

definition Add_u8 :: "u8 \<Rightarrow> bool list" where
  "Add_u8 v = map (bit v) [0..<8]"

definition Read_u8 :: "bool list \<Rightarrow> (u8 \<times> bool list) option" where
  "Read_u8 bs = (if length bs < 8 then None else Some (horner_sum of_bool 2 (take 8 bs), drop 8 bs))"

definition Read_bit :: "bool list \<Rightarrow> (bool \<times> bool list) option" where
  "Read_bit bs = (case bs of [] \<Rightarrow> None | b # bs' \<Rightarrow> Some (b, bs'))"

text \<open>
  \<^verbatim>\<open>IAttribute::ToBinary\<close> writes the value's image.  \<^verbatim>\<open>IAttribute::FromBinary\<close> reads
  as many bits as the attribute's type takes: \<open>attrBits typeId bs\<close> is that number for the
  bits \<open>bs\<close> ahead, or \<open>None\<close> when the read throws.  The attribute types are outside the
  sources, so \<open>attrBits\<close> is a parameter.
\<close>

type_synonym AttrCodec = "u8 \<Rightarrow> bool list \<Rightarrow> nat option"

definition ToBinary :: "IAttribute \<Rightarrow> bool list" where
  "ToBinary attr = attrValue attr"

definition FromBinary :: "AttrCodec \<Rightarrow> IAttribute \<Rightarrow> bool list \<Rightarrow> (IAttribute \<times> bool list) option" where
  "FromBinary attrBits attr bs =
     (case attrBits (attrTypeId attr) bs of
        None \<Rightarrow> None
      | Some n \<Rightarrow> if n \<le> length bs then Some (attr\<lparr>attrValue := take n bs\<rparr>, drop n bs) else None)"

subsection \<open>Encoding the edited attributes of a component\<close>

text \<open>
  Lines 1761 to 1780 of \<^verbatim>\<open>ProcessSyncState\<close>: the indices of the attributes whose dirty
  bit is set, in increasing order; a dirty bit for an index that has no attribute is
  skipped (and logged).  The index is computed in a \<^verbatim>\<open>u8\<close>.
\<close>

definition dirtyBit :: "(nat \<Rightarrow> u8) \<Rightarrow> nat \<Rightarrow> bool" where
  "dirtyBit dirty i = (dirty (i div 8) AND push_bit (i mod 8) 1 \<noteq> 0)"

definition changedAttributes :: "IAttribute option list \<Rightarrow> (nat \<Rightarrow> u8) \<Rightarrow> nat list" where
  "changedAttributes attrs dirty =
     concat (map (\<lambda>i.
       let byte = dirty i in
       if byte \<noteq> 0
       then concat (map (\<lambda>j.
              if byte AND push_bit j 1 \<noteq> 0
              then (let attrIndex = (i * 8 + j) mod 256
                    in if attrIndex < length attrs \<and> attrs ! attrIndex \<noteq> None then [attrIndex] else [])
              else []) [0..<8])
       else []) [0..<(length attrs + 7) div 8])"

text \<open>
  Lines 1823 to 1851: the attribute data of one component.  \<open>None\<close> is a null
  dereference: \<^verbatim>\<open>attrs[i]->ToBinary\<close> for an index that has no attribute.
\<close>

fun writeIndices :: "IAttribute option list \<Rightarrow> nat list \<Rightarrow> bool list option" where
  "writeIndices attrs [] = Some []"
| "writeIndices attrs (i # changed) =
     (case (if i < length attrs then attrs ! i else None) of
        None \<Rightarrow> None
      | Some attr \<Rightarrow>
          map_option (\<lambda>bs. Add_u8 (word_of_nat i) @ ToBinary attr @ bs) (writeIndices attrs changed))"

fun writeBitmask :: "IAttribute option list \<Rightarrow> (nat \<Rightarrow> u8) \<Rightarrow> nat list \<Rightarrow> bool list option" where
  "writeBitmask attrs dirty [] = Some []"
| "writeBitmask attrs dirty (i # is) =
     (if dirtyBit dirty i
      then (case attrs ! i of
              None \<Rightarrow> None
            | Some attr \<Rightarrow>
                map_option (\<lambda>bs. True # ToBinary attr @ bs) (writeBitmask attrs dirty is))
      else map_option (Cons False) (writeBitmask attrs dirty is))"

definition WriteEditAttributes ::
  "IAttribute option list \<Rightarrow> (nat \<Rightarrow> u8) \<Rightarrow> nat list \<Rightarrow> bool list option" where
  "WriteEditAttributes attrs dirty changed =
     (let bitsMethod1 = length changed * 8 + 8;
          bitsMethod2 = length attrs
      in if bitsMethod1 \<le> bitsMethod2
         then map_option (\<lambda>bs. False # Add_u8 (word_of_nat (length changed)) @ bs)
                (writeIndices attrs changed)
         else map_option (Cons True) (writeBitmask attrs dirty [0..<length attrs]))"

subsection \<open>Decoding the edited attributes of a component\<close>

text \<open>
  Lines 2623 to 2689 of \<^verbatim>\<open>HandleEditAttributes\<close>, for the attribute data of one
  component.  The result holds the component's attributes after the reads, the reads in
  order (the attribute index, the value read, and whether it was read into a clone that
  \<^verbatim>\<open>StartAttributeInterpolation\<close> receives), and the warnings logged.
\<close>

record EditResult =
  edAttributes :: "IAttribute option list"
  edApplied :: "(nat \<times> bool list \<times> bool) list"
  edWarnings :: "LogEntry list"

definition readAttribute ::
  "AttrCodec \<Rightarrow> bool \<Rightarrow> nat \<Rightarrow> IAttribute \<Rightarrow> EditResult \<Rightarrow> bool list \<Rightarrow>
   (EditResult \<times> bool list) option" where
  "readAttribute attrBits isServer i attr res bs =
     (let interpolate = (\<not> isServer \<and> interpolation attr) in
      case FromBinary attrBits attr bs of
        None \<Rightarrow> None
      | Some (attr', bs') \<Rightarrow>
          Some (res\<lparr>edAttributes := (if interpolate then edAttributes res
                                       else (edAttributes res)[i := Some attr']),
                    edApplied := edApplied res @ [(i, attrValue attr', interpolate)]\<rparr>, bs'))"

fun readIndices :: "AttrCodec \<Rightarrow> bool \<Rightarrow> nat \<Rightarrow> EditResult \<Rightarrow> bool list \<Rightarrow> EditResult outcome" where
  "readIndices attrBits isServer 0 res bs = Returns res"
| "readIndices attrBits isServer (Suc n) res bs =
     (case Read_u8 bs of
        None \<Rightarrow> Throws res
      | Some (attrIndex, bs) \<Rightarrow>
          if unat attrIndex \<ge> length (edAttributes res)
          then Returns (res\<lparr>edWarnings := edWarnings res @
                 [LogWarning ''Out of bounds attribute index in EditAttributes message, skipping to next component'']\<rparr>)
          else
            (case edAttributes res ! unat attrIndex of
               None \<Rightarrow> Returns (res\<lparr>edWarnings := edWarnings res @
                 [LogWarning ''Nonexistent attribute in EditAttributes message, skipping to next component'']\<rparr>)
             | Some attr \<Rightarrow>
                 (case readAttribute attrBits isServer (unat attrIndex) attr res bs of
                    None \<Rightarrow> Throws res
                  | Some (res, bs) \<Rightarrow> readIndices attrBits isServer n res bs)))"

fun readBitmask :: "AttrCodec \<Rightarrow> bool \<Rightarrow> nat list \<Rightarrow> EditResult \<Rightarrow> bool list \<Rightarrow> EditResult outcome" where
  "readBitmask attrBits isServer [] res bs = Returns res"
| "readBitmask attrBits isServer (i # is) res bs =
     (case bs of
        [] \<Rightarrow> Returns res
      | changed # bs \<Rightarrow>
          if changed then
            (case edAttributes res ! i of
               None \<Rightarrow> Returns (res\<lparr>edWarnings := edWarnings res @
                 [LogWarning ''Nonexistent attribute in EditAttributes message, skipping to next component'']\<rparr>)
             | Some attr \<Rightarrow>
                 (case readAttribute attrBits isServer i attr res bs of
                    None \<Rightarrow> Throws res
                  | Some (res, bs) \<Rightarrow> readBitmask attrBits isServer is res bs))
          else readBitmask attrBits isServer is res bs)"

definition ReadEditAttributes ::
  "AttrCodec \<Rightarrow> bool \<Rightarrow> IAttribute option list \<Rightarrow> bool list \<Rightarrow> EditResult outcome" where
  "ReadEditAttributes attrBits isServer attributes attrDs =
     (let res = \<lparr>edAttributes = attributes, edApplied = [], edWarnings = []\<rparr> in
      case Read_bit attrDs of
        None \<Rightarrow> Throws res
      | Some (indexingMethod, bs) \<Rightarrow>
          if \<not> indexingMethod then
            (case Read_u8 bs of
               None \<Rightarrow> Throws res
             | Some (numChangedAttrs, bs) \<Rightarrow> readIndices attrBits isServer (unat numChangedAttrs) res bs)
          else readBitmask attrBits isServer [0..<length attributes] res bs)"

text \<open>
  The conditions of a faithful transfer: the attribute's image is one its type reads back
  completely, and the receiver's component has the sender's layout (the same length, the
  same holes, the same types).
\<close>

definition wellFormed :: "AttrCodec \<Rightarrow> IAttribute \<Rightarrow> bool" where
  "wellFormed attrBits attr =
     (\<forall>rest. attrBits (attrTypeId attr) (attrValue attr @ rest) = Some (length (attrValue attr)))"

definition sameLayout :: "IAttribute option list \<Rightarrow> IAttribute option list \<Rightarrow> bool" where
  "sameLayout attrs attributes =
     (length attributes = length attrs \<and>
      (\<forall>i < length attrs. map_option attrTypeId (attributes ! i) = map_option attrTypeId (attrs ! i)))"

definition kind :: "IAttribute option \<Rightarrow> (u8 \<times> bool) option" where
  "kind = map_option (\<lambda>attr. (attrTypeId attr, interpolation attr))"

definition expectedReads ::
  "bool \<Rightarrow> IAttribute option list \<Rightarrow> IAttribute option list \<Rightarrow> nat list \<Rightarrow> (nat \<times> bool list \<times> bool) list" where
  "expectedReads isServer attrs attributes changed =
     map (\<lambda>i. (i, attrValue (the (attrs ! i)), \<not> isServer \<and> interpolation (the (attributes ! i)))) changed"

subsection \<open>Reading the fields of a message\<close>






subsection \<open>Marking a sync state\<close>

text \<open>
  Modelled from the spec: the marking functions of \<^verbatim>\<open>SceneSyncState\<close>, whose code is
  outside the sources.  A sync state holds for each entity "\<^verbatim>\<open>isNew\<close>, \<^verbatim>\<open>removed\<close>,
  \<^verbatim>\<open>hasPropertyChanges\<close>, \<^verbatim>\<open>hasParentChange\<close>, a bitmap of dirty component-ids (implemented
  as a mapping id to \<^verbatim>\<open>ComponentSyncState\<close>), an intrusive ordered dirty queue", and for
  each component "\<^verbatim>\<open>isNew\<close>, \<^verbatim>\<open>removed\<close>, per-attribute dirty bitmap,
  \<^verbatim>\<open>newAndRemovedAttributes\<close>".  An entity or component that a state does not know is
  entered as new ("created locally, \<^verbatim>\<open>isNew=true\<close> in every connection's state"); the
  dirty queue is an "ordered set of entities awaiting transmission".  Marking as processed
  undoes every mark ("mark it processed (undirty)", in the words of the handlers).  The
  entities pending an application's decision are not part of the state here.
\<close>

definition newComponentState :: ComponentSyncState where
  "newComponentState = \<lparr>compIsNew = True, compRemoved = False, compIsInQueue = False,
     dirtyAttributes = (\<lambda>i. 0), newAndRemovedAttributes = Map.empty\<rparr>"

definition newEntityState :: EntitySyncState where
  "newEntityState = \<lparr>isNew = True, removed = False, isInQueue = False,
     hasPropertyChanges = False, hasParentChange = False, components = Map.empty,
     compDirtyQueue = [], lastNetworkSendTime = 0,
     transform = \<lparr>pos = float3_zero, rot = float3_zero, scale = float3_zero\<rparr>,
     linearVelocity = float3_zero, angularVelocity = float3_zero,
     avgUpdateInterval = 0, priority = 0\<rparr>"

definition entityState :: "SceneSyncState \<Rightarrow> entity_id_t \<Rightarrow> EntitySyncState" where
  "entityState st eid = (case entities st eid of None \<Rightarrow> newEntityState | Some es \<Rightarrow> es)"

definition componentState :: "EntitySyncState \<Rightarrow> component_id_t \<Rightarrow> ComponentSyncState" where
  "componentState es cid = (case components es cid of None \<Rightarrow> newComponentState | Some cs \<Rightarrow> cs)"

definition MarkEntityDirty :: "entity_id_t \<Rightarrow> bool \<Rightarrow> bool \<Rightarrow> SceneSyncState \<Rightarrow> SceneSyncState" where
  "MarkEntityDirty eid propertyChanges parentChange st =
     (let es = entityState st eid
      in st\<lparr>entities := (entities st)(eid \<mapsto>
               es\<lparr>isInQueue := True,
                   hasPropertyChanges := hasPropertyChanges es \<or> propertyChanges,
                   hasParentChange := hasParentChange es \<or> parentChange\<rparr>),
             dirtyQueue := (if isInQueue es then dirtyQueue st else dirtyQueue st @ [eid])\<rparr>)"

definition updateComponentState ::
  "entity_id_t \<Rightarrow> component_id_t \<Rightarrow> (ComponentSyncState \<Rightarrow> ComponentSyncState) \<Rightarrow>
   SceneSyncState \<Rightarrow> SceneSyncState" where
  "updateComponentState eid cid f st =
     (let es = entityState st eid
      in st\<lparr>entities := (entities st)(eid \<mapsto>
               es\<lparr>components := (components es)(cid \<mapsto> f (componentState es cid))\<rparr>)\<rparr>)"

definition MarkComponentDirty :: "entity_id_t \<Rightarrow> component_id_t \<Rightarrow> SceneSyncState \<Rightarrow> SceneSyncState" where
  "MarkComponentDirty eid cid st =
     (let st = MarkEntityDirty eid False False st;
          es = entityState st eid;
          cs = componentState es cid
      in st\<lparr>entities := (entities st)(eid \<mapsto>
               es\<lparr>components := (components es)(cid \<mapsto> cs\<lparr>compIsInQueue := True\<rparr>),
                   compDirtyQueue := (if compIsInQueue cs then compDirtyQueue es
                                      else compDirtyQueue es @ [cid])\<rparr>)\<rparr>)"

definition MarkAttributeDirty ::
  "entity_id_t \<Rightarrow> component_id_t \<Rightarrow> nat \<Rightarrow> SceneSyncState \<Rightarrow> SceneSyncState" where
  "MarkAttributeDirty eid cid attrIndex st =
     updateComponentState eid cid
       (\<lambda>cs. cs\<lparr>dirtyAttributes := (dirtyAttributes cs)
                  (attrIndex div 8 := dirtyAttributes cs (attrIndex div 8) OR push_bit (attrIndex mod 8) 1)\<rparr>)
       (MarkComponentDirty eid cid st)"

definition MarkAttributeCreated ::
  "entity_id_t \<Rightarrow> component_id_t \<Rightarrow> u8 \<Rightarrow> SceneSyncState \<Rightarrow> SceneSyncState" where
  "MarkAttributeCreated eid cid attrIndex st =
     updateComponentState eid cid
       (\<lambda>cs. cs\<lparr>newAndRemovedAttributes := (newAndRemovedAttributes cs)(attrIndex \<mapsto> True)\<rparr>)
       (MarkComponentDirty eid cid st)"



definition DirtyProcessed :: "ComponentSyncState \<Rightarrow> ComponentSyncState" where
  "DirtyProcessed cs = cs\<lparr>compIsNew := False, compIsInQueue := False,
     dirtyAttributes := (\<lambda>i. 0), newAndRemovedAttributes := Map.empty\<rparr>"

definition MarkComponentProcessed :: "entity_id_t \<Rightarrow> component_id_t \<Rightarrow> SceneSyncState \<Rightarrow> SceneSyncState" where
  "MarkComponentProcessed eid cid st =
     (let es = entityState st eid
      in st\<lparr>entities := (entities st)(eid \<mapsto>
               es\<lparr>components := (components es)(cid \<mapsto> DirtyProcessed (componentState es cid)),
                   compDirtyQueue := removeAll cid (compDirtyQueue es)\<rparr>)\<rparr>)"

definition MarkEntityProcessed :: "entity_id_t \<Rightarrow> SceneSyncState \<Rightarrow> SceneSyncState" where
  "MarkEntityProcessed eid st =
     (let es = entityState st eid
      in st\<lparr>entities := (entities st)(eid \<mapsto>
               es\<lparr>isNew := False, isInQueue := False,
                   hasPropertyChanges := False, hasParentChange := False,
                   components := map_option DirtyProcessed \<circ> components es,
                   compDirtyQueue := []\<rparr>),
             dirtyQueue := removeAll eid (dirtyQueue st)\<rparr>)"

definition RemovePendingEntity :: "entity_id_t \<Rightarrow> SceneSyncState \<Rightarrow> SceneSyncState" where
  "RemovePendingEntity eid st = st"

subsection \<open>The scene's signals\<close>

text \<open>
  What the handlers need of the scene, the entities and the component factory, whose code
  is outside the sources: the permission \<^verbatim>\<open>AllowModifyEntity\<close> gives (for an entity, or for
  the scene when there is none), the ids the generators hand out, the components and
  attributes the factories make for a type id and a name (\<open>None\<close> when they make none),
  the attribute codec, the bounds of the id ranges, and the protocol version that
  introduced entity parents.
\<close>

record SceneAPI =
  AllowModifyEntity :: "ConnRef \<Rightarrow> entity_id_t option \<Rightarrow> bool"
  NextFreeId :: "(entity_id_t \<rightharpoonup> Entity) \<Rightarrow> entity_id_t"
  NextFreeComponentId :: "Entity \<Rightarrow> component_id_t"
  ComponentOfType :: "u32 \<Rightarrow> string \<Rightarrow> IComponent option"
  AttributeOfType :: "u8 \<Rightarrow> string \<Rightarrow> IAttribute option"
  attributeCodec :: AttrCodec
  FIRST_UNACKED_ID :: u32
  FIRST_LOCAL_ID :: u32
  LAST_REPLICATED_ID :: u32
  ProtocolHierarchicScene :: nat

text \<open>
  \<^verbatim>\<open>Entity::IsLocal\<close> and \<^verbatim>\<open>IComponent::IsLocal\<close>.  Modelled from the spec: the ids from
  \<^verbatim>\<open>FIRST_LOCAL_ID\<close> on are "local, never replicated".
\<close>

definition IsLocal :: "SceneAPI \<Rightarrow> u32 \<Rightarrow> bool" where
  "IsLocal api ident = (FIRST_LOCAL_ID api \<le> ident)"

text \<open>
  The loop of the slots over the sync states: on the server every connection that has a
  sync state, on a client the sync state of the connection to the server, which is
  dereferenced without a check (\<open>None\<close>).
\<close>

definition markStates :: "(SceneSyncState \<Rightarrow> SceneSyncState) \<Rightarrow> World \<Rightarrow> World option" where
  "markStates f w =
     (if IsServer w
      then Some (w\<lparr>UserConnections :=
             map (\<lambda>u. case syncState u of None \<Rightarrow> u | Some st \<Rightarrow> u\<lparr>syncState := Some (f st)\<rparr>)
                 (UserConnections w)\<rparr>)
      else (case syncState (serverConnection w) of
              None \<Rightarrow> None
            | Some st \<Rightarrow> Some (w\<lparr>serverConnection := (serverConnection w)\<lparr>syncState := Some (f st)\<rparr>\<rparr>)))"

text \<open>
  The slots of the manager.  \<^verbatim>\<open>OnAttributeChanged\<close> first ends a running interpolation
  of the attribute on a client; the scene's interpolations are not part of the state here.
\<close>

definition OnAttributeChanged ::
  "SceneAPI \<Rightarrow> entity_id_t \<Rightarrow> component_id_t \<Rightarrow> nat \<Rightarrow> AttributeChange \<Rightarrow> World \<Rightarrow> World option" where
  "OnAttributeChanged api eid cid attrIndex change w =
     (if change \<noteq> Replicate \<or> IsLocal api cid then Some w
      else if IsLocal api eid then Some w
      else markStates (MarkAttributeDirty eid cid attrIndex) w)"




definition warnQueuedForDeletion :: "entity_id_t \<Rightarrow> World \<Rightarrow> World" where
  "warnQueuedForDeletion eid w =
     w\<lparr>logged := logged w @
        concat (map (\<lambda>u. case syncState u of
                            None \<Rightarrow> []
                          | Some st \<Rightarrow>
                              if removed (entityState st eid)
                              then [LogWarning ''An entity is queued to be deleted, but a new entity is to be added to the scene!'']
                              else []) (UserConnections w))\<rparr>"

definition OnEntityCreated :: "SceneAPI \<Rightarrow> entity_id_t \<Rightarrow> AttributeChange \<Rightarrow> World \<Rightarrow> World option" where
  "OnEntityCreated api eid change w =
     (if change \<noteq> Replicate \<or> IsLocal api eid then Some w
      else if IsServer w
      then map_option (warnQueuedForDeletion eid) (markStates (MarkEntityDirty eid False False) w)
      else markStates (MarkEntityDirty eid False False) w)"


definition OnEntityPropertiesChanged ::
  "SceneAPI \<Rightarrow> entity_id_t \<Rightarrow> AttributeChange \<Rightarrow> World \<Rightarrow> World option" where
  "OnEntityPropertiesChanged api eid change w =
     (if change \<noteq> Replicate \<or> IsLocal api eid then Some w
      else markStates (MarkEntityDirty eid True False) w)"

definition OnEntityParentChanged ::
  "SceneAPI \<Rightarrow> entity_id_t \<Rightarrow> entity_id_t option \<Rightarrow> AttributeChange \<Rightarrow> World \<Rightarrow> World option" where
  "OnEntityParentChanged api eid newParent change w =
     (if change \<noteq> Replicate \<or> IsLocal api eid then Some w
      else if (case newParent of None \<Rightarrow> False | Some p \<Rightarrow> IsLocal api p)
      then Some (Log (LogError ''Replicated entity is parented to a local entity, can not replicate parenting properly over the network'') w)
      else markStates (MarkEntityDirty eid False True) w)"

subsection \<open>Changing the scene\<close>

text \<open>
  Modelled from the spec: the mutations of the scene the handlers call.  "Every mutation
  accepts a change kind"; "\<^verbatim>\<open>Default\<close> resolves to \<^verbatim>\<open>Replicate\<close>", and \<^verbatim>\<open>Disconnected\<close>
  emits no signal.  A signal runs the manager's slot.  An entity of the scene is named by
  its id, a component by the ids of its entity and its own.  \<^verbatim>\<open>CreateEntity\<close> and
  \<^verbatim>\<open>CreateComponentWithId\<close> return null (\<open>None\<close>) for an id that is taken or a type the
  factory does not make, and component id 0 asks for a free id.  The typed views
  \<open>ecPlaceable\<close> and \<open>ecRigidBody\<close> are left as they are.
\<close>

definition resolve :: "AttributeChange \<Rightarrow> AttributeChange" where
  "resolve change = (if change = Default then Replicate else change)"

definition emit :: "AttributeChange \<Rightarrow> (AttributeChange \<Rightarrow> World \<Rightarrow> World option) \<Rightarrow> World \<Rightarrow> World option" where
  "emit change slot w = (if resolve change = Disconnected then Some w else slot (resolve change) w)"

definition theScene :: "World \<Rightarrow> entity_id_t \<rightharpoonup> Entity" where
  "theScene w = (case scene w of None \<Rightarrow> Map.empty | Some sc \<Rightarrow> sc)"

definition updateEntity :: "entity_id_t \<Rightarrow> (Entity \<Rightarrow> Entity) \<Rightarrow> World \<Rightarrow> World" where
  "updateEntity eid f w = w\<lparr>scene := Some ((theScene w)(eid := map_option f (theScene w eid)))\<rparr>"




definition SetTemporary :: "SceneAPI \<Rightarrow> entity_id_t \<Rightarrow> bool \<Rightarrow> AttributeChange \<Rightarrow> World \<Rightarrow> World option" where
  "SetTemporary api eid enable change w =
     emit change (OnEntityPropertiesChanged api eid)
       (updateEntity eid (\<lambda>e. e\<lparr>IsTemporary := enable\<rparr>) w)"

definition SetParent ::
  "SceneAPI \<Rightarrow> entity_id_t \<Rightarrow> entity_id_t option \<Rightarrow> AttributeChange \<Rightarrow> World \<Rightarrow> World option" where
  "SetParent api eid newParent change w =
     emit change (OnEntityParentChanged api eid newParent)
       (updateEntity eid (\<lambda>e. e\<lparr>Parent := newParent\<rparr>) w)"

definition GetComponentById :: "World \<Rightarrow> entity_id_t \<Rightarrow> component_id_t \<Rightarrow> IComponent option" where
  "GetComponentById w eid cid = (case theScene w eid of None \<Rightarrow> None | Some e \<Rightarrow> Components e cid)"





fun sequence :: "('a \<Rightarrow> World \<Rightarrow> World option) \<Rightarrow> 'a list \<Rightarrow> World \<Rightarrow> World option" where
  "sequence f [] w = Some w"
| "sequence f (x # xs) w = (case f x w of None \<Rightarrow> None | Some w' \<Rightarrow> sequence f xs w')"

text \<open>
  \<^verbatim>\<open>IComponent::ComponentChanged\<close> signals a change of every attribute of the component.
\<close>

definition ComponentChanged ::
  "SceneAPI \<Rightarrow> entity_id_t \<Rightarrow> AttributeChange \<Rightarrow> component_id_t \<Rightarrow> World \<Rightarrow> World option" where
  "ComponentChanged api eid change cid w =
     (case GetComponentById w eid cid of
        None \<Rightarrow> Some w
      | Some cmp \<Rightarrow>
          sequence (\<lambda>i. emit change (OnAttributeChanged api eid cid i))
            (filter (\<lambda>i. Attributes cmp ! i \<noteq> None) [0..<length (Attributes cmp)]) w)"

subsection \<open>Handling SetEntityParent\<close>



definition updateSyncState :: "ConnRef \<Rightarrow> (SceneSyncState \<Rightarrow> SceneSyncState) \<Rightarrow> World \<Rightarrow> World" where
  "updateSyncState c f w =
     (let u = getConnection w c in setConnection c (u\<lparr>syncState := map_option f (syncState u)\<rparr>) w)"

definition updateEntityState ::
  "entity_id_t \<Rightarrow> (EntitySyncState \<Rightarrow> EntitySyncState) \<Rightarrow> SceneSyncState \<Rightarrow> SceneSyncState" where
  "updateEntityState eid f st = st\<lparr>entities := (entities st)(eid \<mapsto> f (entityState st eid))\<rparr>"

text \<open>
  The end of \<^verbatim>\<open>HandleSetEntityParent\<close> (lines 1469 to 1472): the parent is set, then
  the mark the signal has made in the sender's sync state is taken back.
\<close>

definition applyEntityParent ::
  "SceneAPI \<Rightarrow> ConnRef \<Rightarrow> entity_id_t \<Rightarrow> entity_id_t option \<Rightarrow> World \<Rightarrow> World outcome" where
  "applyEntityParent api source entityID parentEntity w =
     (case SetParent api entityID parentEntity (if IsServer w then Replicate else LocalOnly) w of
        None \<Rightarrow> NullDereference
      | Some w1 \<Rightarrow>
          Returns (updateSyncState source
            (updateEntityState entityID (\<lambda>es. es\<lparr>hasParentChange := False\<rparr>)) w1))"



subsection \<open>Handling CreateEntity and CreateComponents\<close>
















definition maskIds ::
  "SceneAPI \<Rightarrow> (component_id_t \<times> component_id_t) list \<Rightarrow> (component_id_t \<times> component_id_t) list" where
  "maskIds api added =
     map (\<lambda>(senderCompID, compID).
            (senderCompID AND LAST_REPLICATED_ID api, compID AND LAST_REPLICATED_ID api)) added"


definition finishCreateEntity ::
  "SceneAPI \<Rightarrow> ConnRef \<Rightarrow> entity_id_t \<Rightarrow> entity_id_t \<Rightarrow> (component_id_t \<times> component_id_t) list \<Rightarrow>
   World \<Rightarrow> World outcome" where
  "finishCreateEntity api source senderEntityID entityID added w =
     (let isServer = IsServer w;
          change = (if isServer then Replicate else LocalOnly)
      in
      case emit change (OnEntityCreated api entityID) w of
        None \<Rightarrow> NullDereference
      | Some w1 \<Rightarrow>
          (case sequence (ComponentChanged api entityID change) (remdups (map snd added)) w1 of
             None \<Rightarrow> NullDereference
           | Some w2 \<Rightarrow>
               let w3 = (if isServer
                         then Send source
                           \<lparr>msgId = cCreateEntityReplyMessage, reliable = True, inOrder = True,
                            payload = CreateReply (senderEntityID AND LAST_REPLICATED_ID api)
                                        (entityID AND LAST_REPLICATED_ID api) (maskIds api added)\<rparr> w2
                         else w2)
               in Returns (updateSyncState source (MarkEntityProcessed entityID) w3)))"






subsection \<open>Frame conditions and the translation of ids\<close>



subsection \<open>Handling EditEntityProperties and EditAttributes\<close>

text \<open>
  The end of \<^verbatim>\<open>HandleEditEntityProperties\<close> (lines 1394 to 1398, after the read): the
  flag is set, then the mark the signal has made in the sender's sync state is taken back.
\<close>

definition applyEntityProperties ::
  "SceneAPI \<Rightarrow> ConnRef \<Rightarrow> entity_id_t \<Rightarrow> bool \<Rightarrow> World \<Rightarrow> World outcome" where
  "applyEntityProperties api source entityID newTemporary w =
     (case SetTemporary api entityID newTemporary (if IsServer w then Replicate else LocalOnly) w of
        None \<Rightarrow> NullDereference
      | Some w1 \<Rightarrow>
          Returns (updateSyncState source
            (updateEntityState entityID (\<lambda>es. es\<lparr>hasPropertyChanges := False\<rparr>)) w1))"








text \<open>
  The end of \<^verbatim>\<open>HandleEditAttributes\<close> (lines 2692 to 2700): for each changed attribute the
  change is signalled, then its dirty bit in the sender's sync state is cleared.
  \<^verbatim>\<open>state->entities[entityID].components[owner->Id()]\<close> enters the entity and the component
  when the state does not have them.
\<close>

definition clearDirty ::
  "entity_id_t \<Rightarrow> component_id_t \<Rightarrow> nat \<Rightarrow> SceneSyncState \<Rightarrow> SceneSyncState" where
  "clearDirty eid cid attrIndex st =
     updateComponentState eid cid
       (\<lambda>cs. cs\<lparr>dirtyAttributes := (dirtyAttributes cs)
                  (attrIndex div 8 := dirtyAttributes cs (attrIndex div 8) AND NOT (push_bit (attrIndex mod 8) 1))\<rparr>)
       st"

fun signalEdits ::
  "SceneAPI \<Rightarrow> ConnRef \<Rightarrow> entity_id_t \<Rightarrow> AttributeChange \<Rightarrow> (component_id_t \<times> nat) list \<Rightarrow>
   World \<Rightarrow> World option" where
  "signalEdits api source entityID change [] w = Some w"
| "signalEdits api source entityID change ((cid, attrIndex) # changedAttrs) w =
     (case emit change (OnAttributeChanged api entityID cid attrIndex) w of
        None \<Rightarrow> None
      | Some w1 \<Rightarrow>
          signalEdits api source entityID change changedAttrs
            (updateSyncState source (clearDirty entityID cid attrIndex) w1))"


subsection \<open>What the generic pass sends for an entity\<close>

text \<open>
  Modelled from the spec: the writes of the bit codec that mirror \<open>ReadVLE\<close> and
  \<open>Read_u32\<close>.
\<close>

definition Add_u32 :: "u32 \<Rightarrow> bool list" where
  "Add_u32 v = map (bit v) [0..<32]"

definition AddVLE :: "u32 \<Rightarrow> bool list" where
  "AddVLE v =
     (if v < 128 then map (bit v) [0..<7] @ [False]
      else if v < 16384 then map (bit v) [0..<7] @ [True] @ map (bit v) [7..<14] @ [False]
      else map (bit v) [0..<7] @ [True] @ map (bit v) [7..<14] @ [True] @ map (bit v) [14..<30])"

text \<open>
  The passes of \<^verbatim>\<open>ProcessSyncState\<close> over an entity of the dirty queue that is in the
  scene: an entity state that is not marked removed and is new goes out as a CreateEntity
  message (lines 1575 and 1604); for any other that is not removed, the components of its
  dirty queue are written, the edited attributes being those of \<open>changedAttributes\<close>, and
  then the properties and the parent (lines 1896 to 1915).
\<close>

definition sendsCreateEntity :: "EntitySyncState \<Rightarrow> bool" where
  "sendsCreateEntity es = (\<not> removed es \<and> isNew es)"

definition entityPropertyMessages ::
  "SceneAPI \<Rightarrow> UserConnection \<Rightarrow> entity_id_t \<Rightarrow> Entity \<Rightarrow> EntitySyncState \<Rightarrow> NetMessage list" where
  "entityPropertyMessages api user entityID e es =
     (if hasPropertyChanges es
      then [\<lparr>msgId = cEditEntityPropertiesMessage, reliable = True, inOrder = True,
             payload = Bits (AddVLE 0 @ AddVLE (entityID AND LAST_REPLICATED_ID api) @
                             Add_u8 (if IsTemporary e then 1 else 0))\<rparr>]
      else []) @
     (if hasParentChange es \<and> ProtocolHierarchicScene api \<le> protocolVersion user
      then [\<lparr>msgId = cSetEntityParentMessage, reliable = True, inOrder = True,
             payload = Bits (AddVLE 0 @ Add_u32 entityID @
                             Add_u32 (case Parent e of None \<Rightarrow> 0 | Some p \<Rightarrow> p))\<rparr>]
      else [])"

text \<open>
  A connection of the world that has a sync state, and the state it has of an entity.
\<close>

definition hasState :: "World \<Rightarrow> ConnRef \<Rightarrow> bool" where
  "hasState w c =
     (case c of
        ServerConnection \<Rightarrow> syncState (serverConnection w) \<noteq> None
      | User i \<Rightarrow> i < length (UserConnections w) \<and> syncState (UserConnections w ! i) \<noteq> None)"

definition senderState :: "World \<Rightarrow> ConnRef \<Rightarrow> entity_id_t \<Rightarrow> EntitySyncState" where
  "senderState w c eid = entityState (the (syncState (getConnection w c))) eid"

text \<open>A step that leaves the sender's sync state as it is, or applies \<open>f\<close> to it.\<close>

definition marks :: "(SceneSyncState \<Rightarrow> SceneSyncState) \<Rightarrow> ConnRef \<Rightarrow> World \<Rightarrow> World \<Rightarrow> bool" where
  "marks f c w w' =
     (hasState w' c \<and>
      (syncState (getConnection w' c) = syncState (getConnection w c) \<or>
       syncState (getConnection w' c) = map_option f (syncState (getConnection w c))))"

text \<open>The dirty bits a sync state holds for a component of an entity.\<close>

definition bitsOf :: "SceneSyncState \<Rightarrow> entity_id_t \<Rightarrow> component_id_t \<Rightarrow> nat \<Rightarrow> u8" where
  "bitsOf st eid cid = dirtyAttributes (componentState (entityState st eid) cid)"

subsection \<open>What a handler leaves as it was\<close>

text \<open>
  \<open>benign f\<close>: the marking function \<open>f\<close> marks no entity and no component as removed, and
  takes no such mark back.  \<open>undisturbed u u'\<close>: the connection \<open>u'\<close> is disconnected if and
  only if \<open>u\<close> is, it has a sync state if and only if \<open>u\<close> has one, and the two sync states
  have the same entities and components marked as removed.  \<open>validConn w c\<close>: the pointer
  \<open>c\<close> is to a connection of \<open>w\<close>.  \<open>keeps w w'\<close>: \<open>w'\<close> has the connections of \<open>w\<close>, each
  undisturbed, and its log begins with the log of \<open>w\<close>.  \<open>sameParents w w'\<close>: the two scenes
  have the same entities, each with the same parent.
\<close>

definition benign :: "(SceneSyncState \<Rightarrow> SceneSyncState) \<Rightarrow> bool" where
  "benign f = (\<forall>st e cid. removed (entityState (f st) e) = removed (entityState st e) \<and>
       compRemoved (componentState (entityState (f st) e) cid)
         = compRemoved (componentState (entityState st e) cid))"

definition undisturbed :: "UserConnection \<Rightarrow> UserConnection \<Rightarrow> bool" where
  "undisturbed u u' =
     (disconnected u' = disconnected u \<and>
      (case syncState u of
         None \<Rightarrow> syncState u' = None
       | Some st \<Rightarrow>
           (\<exists>st'. syncState u' = Some st' \<and>
              (\<forall>e cid. removed (entityState st' e) = removed (entityState st e) \<and>
                 compRemoved (componentState (entityState st' e) cid)
                   = compRemoved (componentState (entityState st e) cid)))))"

definition validConn :: "World \<Rightarrow> ConnRef \<Rightarrow> bool" where
  "validConn w c = (case c of ServerConnection \<Rightarrow> True | User i \<Rightarrow> i < length (UserConnections w))"

definition keeps :: "World \<Rightarrow> World \<Rightarrow> bool" where
  "keeps w w' =
     (IsServer w' = IsServer w \<and>
      list_all2 undisturbed (UserConnections w) (UserConnections w') \<and>
      undisturbed (serverConnection w) (serverConnection w') \<and>
      (\<exists>xs. logged w' = logged w @ xs))"

definition sameParents :: "World \<Rightarrow> World \<Rightarrow> bool" where
  "sameParents w w' = (\<forall>e. map_option Parent (theScene w' e) = map_option Parent (theScene w e))"

subsection \<open>Example states\<close>

text \<open>Concrete connections, scenes and messages at which the statements below are evaluated.\<close>

definition empty_sync_state :: SceneSyncState where
  "empty_sync_state = \<lparr>entities = Map.empty, dirtyQueue = [], queuedActions = [],
                        entityInterpolations = Map.empty\<rparr>"

definition client :: UserConnection where
  "client = \<lparr>authenticated = True, protocolVersion = 4, transport = SocketOverUDP,
             unackedIdsToRealIds = Map.empty, syncState = Some empty_sync_state,
             disconnected = False, sent = []\<rparr>"

definition pending_client :: UserConnection where
  "pending_client = client\<lparr>authenticated := False, syncState := None\<rparr>"

definition plain_entity :: Entity where
  "plain_entity = \<lparr>IsTemporary = False, Parent = None, Components = Map.empty,
                    ecPlaceable = None, ecRigidBody = None\<rparr>"

definition server_world :: "UserConnection list \<Rightarrow> World" where
  "server_world cs = \<lparr>IsServer = True, scene = Some [1 \<mapsto> plain_entity],
                       UserConnections = cs, serverConnection = pending_client,
                       logged = [], executed = [], actionSender = None,
                       clientConnected = False\<rparr>"

definition idle :: Handler where "idle user data w = Returns w"

definition idle_handlers :: Handlers where
  "idle_handlers = \<lparr>hObserverPosition = idle, hCreateEntity = idle, hCreateComponents = idle,
     hCreateAttributes = idle, hEditAttributes = idle, hRemoveAttributes = idle,
     hRemoveComponents = idle, hRemoveEntity = idle, hCreateEntityReply = idle,
     hCreateComponentsReply = idle, hRigidBodyChanges = (\<lambda>user packetId. idle user),
     hEditEntityProperties = idle, hSetEntityParent = idle,
     DeserializeEntityAction = (\<lambda>data. None), hRegisterComponentType = idle\<rparr>"

definition hello :: MsgEntityAction where
  "hello = \<lparr>entityId = 1, executionType = Server OR Peers, actionName = ''Hello'',
            parameters = [''world'']\<rparr>"

text \<open>What queueing an action does to one connection that has a sync state.\<close>

definition pushAction :: "MsgEntityAction \<Rightarrow> UserConnection \<Rightarrow> UserConnection" where
  "pushAction msg c =
     c\<lparr>syncState := map_option (\<lambda>st. st\<lparr>queuedActions := queuedActions st @ [msg]\<rparr>) (syncState c)\<rparr>"

text \<open>
  A comparison of packet ids that wraps around at 16 bits, a library with it, and a client
  that holds an interpolation state for entity 1 whose last packet was number 10.
\<close>

definition newer16 :: "packet_id_t \<Rightarrow> packet_id_t \<Rightarrow> bool" where
  "newer16 newID oldID = (newID \<noteq> oldID \<and> unat (newID - oldID) mod 65536 < 32768)"

definition stale_update :: RigidBodyUpdate where
  "stale_update = \<lparr>wireEntityID = 1, posSendType = 1, rotSendType = 0, scaleSendType = 0,
     velSendType = 0, angVelSendType = 0, wirePos = float3 5 0 0, wireRot = Quat_identity,
     wireScale = float3 1 1 1, wireVel = float3_zero, wireAngVel = None\<rparr>"

definition example_library :: Library where
  "example_library = \<lparr>Orientation = (\<lambda>t. Quat_identity), SetOrientation = (\<lambda>q t. t),
     PacketIDIsNewerThan = newer16,
     DeserializeRigidBodies = (\<lambda>data. if data = [] then ([], False) else ([stale_update], False))\<rparr>"

definition unit_transform :: Transform where
  "unit_transform = \<lparr>pos = float3_zero, rot = float3_zero, scale = float3 1 1 1\<rparr>"

definition placed_entity :: Entity where
  "placed_entity = \<lparr>IsTemporary = False, Parent = None, Components = Map.empty,
     ecPlaceable = Some \<lparr>placeableId = 1, placeableTransform = unit_transform\<rparr>, ecRigidBody = None\<rparr>"

definition resting :: RigidBodyState where
  "resting = \<lparr>statePos = float3_zero, stateRot = Quat_identity, stateScale = float3 1 1 1,
              vel = float3_zero, angVel = float3_zero\<rparr>"

definition interpolation_at_10 :: RigidBodyInterpolationState where
  "interpolation_at_10 = \<lparr>interpStart = resting, interpEnd = resting, interpTime = 2,
     interpolatorActive = False, lastReceivedPacketCounter = 10\<rparr>"

definition client_world :: "Transport \<Rightarrow> World" where
  "client_world tr = \<lparr>IsServer = False, scene = Some [1 \<mapsto> placed_entity],
     UserConnections = [],
     serverConnection = client\<lparr>transport := tr,
       syncState := Some (empty_sync_state\<lparr>entityInterpolations := [1 \<mapsto> interpolation_at_10]\<rparr>)\<rparr>,
     logged = [], executed = [], actionSender = None, clientConnected = True\<rparr>"














definition attrBits8 :: AttrCodec where
  "attrBits8 typeId bs = Some 8"

definition byte_attr :: "u8 \<Rightarrow> IAttribute" where
  "byte_attr v = \<lparr>attrTypeId = 1, attrName = ''value'', attrValue = Add_u8 v,
                  IsDynamic = False, interpolation = False\<rparr>"

definition three_attrs :: "IAttribute option list" where
  "three_attrs = [Some (byte_attr 7), Some (byte_attr 8), Some (byte_attr 9)]"

definition first_dirty :: "nat \<Rightarrow> u8" where
  "first_dirty i = (if i = 0 then 1 else 0)"
































section \<open>Statements checked against the code\<close>

subsection \<open>C5: the extrapolation window\<close>

text \<open>
  C5, as the specification states it, fails: without the flag the constructor leaves
  \<open>maxLinExtrapTime\<close> at 3, not at 1.
\<close>

theorem C5_default_counterexample:
  "maxLinExtrapTime (SyncManager_ctor no_flags) \<noteq> 1"
  by (simp add: SyncManager_ctor_def GetClientExtrapolationTime_def no_flags_def)

text \<open>
  C5, amended: \<open>maxLinExtrapTime\<close> defaults to 3 (one update period of interpolation and
  two of linear extrapolation).  When \<^verbatim>\<open>--clientextrapolationtime\<close> is given and its first
  value parses as a non-negative number of milliseconds \<open>ms\<close>, \<^verbatim>\<open>GetClientExtrapolationTime\<close>
  sets \<open>maxLinExtrapTime\<close> to \<open>1 + ms / 1000 / updatePeriod\<close> with the update period of
  the manager it is called on: \<open>1 / 20\<close> in the constructor, and the new period, raised
  to \<open>1 / 100\<close> if smaller, in \<^verbatim>\<open>SetUpdatePeriod\<close>.  When the flag is absent, or its first
  value does not parse or is negative, \<open>maxLinExtrapTime\<close> is left as it is, so 3 after
  the constructor.  The update period itself is 1 / 20 after the constructor, unchanged
  by \<^verbatim>\<open>GetClientExtrapolationTime\<close>, and the clamped argument after \<^verbatim>\<open>SetUpdatePeriod\<close>.
\<close>

theorem C5_extrapolation_window:
  "(CommandLineParameters fw ''--clientextrapolationtime'' = [] \<longrightarrow>
      maxLinExtrapTime (SyncManager_ctor fw) = 3 \<and>
      maxLinExtrapTime (GetClientExtrapolationTime fw this) = maxLinExtrapTime this \<and>
      maxLinExtrapTime (SetUpdatePeriod fw period this) = maxLinExtrapTime this) \<and>
   (\<forall>p ps ms. CommandLineParameters fw ''--clientextrapolationtime'' = p # ps \<and>
       toFloat fw p = Some ms \<and> 0 \<le> ms \<longrightarrow>
      maxLinExtrapTime (SyncManager_ctor fw) = 1 + ms / 1000 / (1 / 20) \<and>
      maxLinExtrapTime (GetClientExtrapolationTime fw this) = 1 + ms / 1000 / updatePeriod this \<and>
      maxLinExtrapTime (SetUpdatePeriod fw period this)
        = 1 + ms / 1000 / (if period < 1 / 100 then 1 / 100 else period)) \<and>
   (\<forall>p ps. CommandLineParameters fw ''--clientextrapolationtime'' = p # ps \<and>
       (toFloat fw p = None \<or> (\<exists>ms. toFloat fw p = Some ms \<and> ms < 0)) \<longrightarrow>
      maxLinExtrapTime (SyncManager_ctor fw) = 3 \<and>
      maxLinExtrapTime (GetClientExtrapolationTime fw this) = maxLinExtrapTime this \<and>
      maxLinExtrapTime (SetUpdatePeriod fw period this) = maxLinExtrapTime this) \<and>
   updatePeriod (SyncManager_ctor fw) = 1 / 20 \<and>
   updatePeriod (GetClientExtrapolationTime fw this) = updatePeriod this \<and>
   updatePeriod (SetUpdatePeriod fw period this) = (if period < 1 / 100 then 1 / 100 else period)"
  by (auto simp add: SyncManager_ctor_def GetClientExtrapolationTime_def SetUpdatePeriod_def
      SetInterestManagementEnabled_def Let_def split: option.splits)

theorem C5_extrapolation_window_witness:
  "CommandLineParameters no_flags ''--clientextrapolationtime'' = [] \<and>
   maxLinExtrapTime (SyncManager_ctor no_flags) = 3 \<and>
   maxLinExtrapTime (SetUpdatePeriod no_flags (1 / 10) (SyncManager_ctor no_flags)) = 3 \<and>
   CommandLineParameters extrap_250ms ''--clientextrapolationtime'' = [''250''] \<and>
   toFloat extrap_250ms ''250'' = Some 250 \<and>
   maxLinExtrapTime (SyncManager_ctor extrap_250ms) = 6 \<and>
   maxLinExtrapTime (SetUpdatePeriod extrap_250ms (1 / 10) (SyncManager_ctor extrap_250ms)) = 7 / 2 \<and>
   maxLinExtrapTime (SetUpdatePeriod extrap_250ms (1 / 1000) (SyncManager_ctor extrap_250ms)) = 26 \<and>
   CommandLineParameters (extrap_100ms\<lparr>toFloat := (\<lambda>_. None)\<rparr>) ''--clientextrapolationtime'' = [''100''] \<and>
   toFloat (extrap_100ms\<lparr>toFloat := (\<lambda>_. None)\<rparr>) ''100'' = None \<and>
   maxLinExtrapTime (SyncManager_ctor (extrap_100ms\<lparr>toFloat := (\<lambda>_. None)\<rparr>)) = 3"
proof -
  let ?n = "SyncManager_ctor no_flags" and ?e = "SyncManager_ctor extrap_250ms"
  let ?bad = "extrap_100ms\<lparr>toFloat := (\<lambda>_. None)\<rparr>"
  have a: "CommandLineParameters no_flags ''--clientextrapolationtime'' = []"
    by (simp add: no_flags_def)
  have b: "CommandLineParameters extrap_250ms ''--clientextrapolationtime'' = [''250'']"
    by (simp add: extrap_250ms_def)
  have c: "toFloat extrap_250ms ''250'' = Some 250"
    by (simp add: extrap_250ms_def)
  have b': "CommandLineParameters ?bad ''--clientextrapolationtime'' = [''100'']"
    by (simp add: extrap_100ms_def)
  have c': "toFloat ?bad ''100'' = None"
    by simp
  from C5_extrapolation_window [of no_flags ?n "1 / 10"] a
  have d: "maxLinExtrapTime ?n = 3" "maxLinExtrapTime (SetUpdatePeriod no_flags (1 / 10) ?n) = 3"
    by simp_all
  from C5_extrapolation_window [of extrap_250ms ?e "1 / 10"] b c
  have e: "maxLinExtrapTime ?e = 6" "maxLinExtrapTime (SetUpdatePeriod extrap_250ms (1 / 10) ?e) = 7 / 2"
    by simp_all
  from C5_extrapolation_window [of extrap_250ms ?e "1 / 1000"] b c
  have f: "maxLinExtrapTime (SetUpdatePeriod extrap_250ms (1 / 1000) ?e) = 26"
    by simp
  from C5_extrapolation_window [of ?bad ?n 1] b' c'
  have g: "maxLinExtrapTime (SyncManager_ctor ?bad) = 3" by simp
  from a b c d e f b' c' g show ?thesis by simp
qed

subsection \<open>C8: message ids without a handler\<close>

text \<open>
  C8, amended: for every received message whose id is not one of the fifteen the switch of
  \<^verbatim>\<open>HandleNetworkMessage\<close> handles, the call returns with the state as it was: nothing is
  logged, no connection is disconnected, and processing continues.
\<close>

theorem C8_unknown_message_id:
  "messageId \<notin> handled_ids \<Longrightarrow>
   HandleNetworkMessage hs user packetId messageId data w = Returns w"
  by (simp add: HandleNetworkMessage_def HandleNetworkMessage_switch_def handled_ids_def
      split: option.splits)

theorem C8_unknown_message_id_witness:
  "cLoginMessage \<notin> handled_ids \<and>
   HandleNetworkMessage idle_handlers (Some (User 0)) 0 cLoginMessage [] (server_world [client])
     = Returns (server_world [client])"
proof -
  have h: "cLoginMessage \<notin> handled_ids"
    by (simp add: handled_ids_def message_ids)
  from h C8_unknown_message_id [OF h] show ?thesis by simp
qed

text \<open>
  C8, as the specification states it, fails: the switch has no default case, so a message
  with an id outside the switch (here 125) leaves the log empty; no warning is written.
\<close>

theorem C8_no_warning_counterexample:
  "\<exists>w'. HandleNetworkMessage idle_handlers (Some (User 0)) 0 125 [] (server_world [client]) = Returns w' \<and>
    logged w' = [] \<and> logged (server_world [client]) = []"
  by (simp add: HandleNetworkMessage_def HandleNetworkMessage_switch_def message_ids server_world_def)

subsection \<open>C7: entity actions received by the server\<close>

lemma Local_and_Server: "Local AND Server = 0" "Local AND Peers = 0" "Local \<noteq> 0"
  by (simp_all add: Local_def Server_def Peers_def)

lemma OnActionTriggered_Local: "OnActionTriggered entity action params Local w = Returns w"
  by (simp add: OnActionTriggered.simps Local_and_Server Let_def)

lemma Exec_Local:
  "Exec entity Local action params w = Returns (w\<lparr>executed := executed w @ [(entity, action, params)]\<rparr>)"
  by (simp add: Exec.simps OnActionTriggered_Local Local_and_Server)

lemma queueToPeers_Some:
  "\<forall>c \<in> set cs. syncState c \<noteq> None \<Longrightarrow> \<exists>cs'. queueToPeers i source msg cs = Some cs'"
proof (induction cs arbitrary: i)
  case Nil
  show ?case by simp
next
  case (Cons c cs)
  from Cons.prems have "\<forall>c \<in> set cs. syncState c \<noteq> None" by simp
  from Cons.IH [OF this, of "Suc i"] obtain cs' where "queueToPeers (Suc i) source msg cs = Some cs'" ..
  moreover from Cons.prems obtain st where "syncState c = Some st" by auto
  ultimately show ?case by simp
qed

lemma queueToPeers_nth:
  "queueToPeers i source msg cs = Some cs' \<Longrightarrow>
   length cs' = length cs \<and>
   (\<forall>j < length cs. cs' ! j = (if User (i + j) \<noteq> source then pushAction msg (cs ! j) else cs ! j))"
proof (induction cs arbitrary: i cs')
  case Nil
  then show ?case by simp
next
  case (Cons c cs)
  from Cons.prems obtain cs'' where
    tl: "queueToPeers (Suc i) source msg cs = Some cs''" and
    hd: "cs' = (if User i \<noteq> source then pushAction msg c else c) # cs''"
    by (cases "syncState c"; cases "User i \<noteq> source"; cases "queueToPeers (Suc i) source msg cs")
       (simp_all add: pushAction_def)
  from Cons.IH [OF tl] have len: "length cs'' = length cs" and
    nth: "\<And>j. j < length cs \<Longrightarrow>
       cs'' ! j = (if User (Suc i + j) \<noteq> source then pushAction msg (cs ! j) else cs ! j)"
    by simp_all
  have "cs' ! j = (if User (i + j) \<noteq> source then pushAction msg ((c # cs) ! j) else (c # cs) ! j)"
    if "j < length (c # cs)" for j
  proof (cases j)
    case 0
    then show ?thesis by (simp add: hd)
  next
    case (Suc k)
    with that have "k < length cs" by simp
    from nth [OF this] show ?thesis by (simp add: hd Suc)
  qed
  then show ?case by (simp add: hd len)
qed

text \<open>
  When every connection of the server has a sync state, the action is executed locally
  if the \<open>Local\<close> or the \<open>Server\<close> bit is set, and it is queued, with the execution
  type \<open>Local\<close>, for every connection but the sender.
\<close>

lemma HandleEntityAction_fan_out:
  assumes "IsServer w" and "scene w = Some sc" and "sc (entityId msg) = Some e"
    and "\<forall>c \<in> set (UserConnections w). syncState c \<noteq> None"
    and "executionType msg AND Peers \<noteq> 0"
  shows "\<exists>w'. HandleEntityAction source msg w = Returns w' \<and>
     length (UserConnections w') = length (UserConnections w) \<and>
     executed w' =
       (if executionType msg AND Local \<noteq> 0 \<or> executionType msg AND Server \<noteq> 0
        then executed w @ [(entityId msg, actionName msg, parameters msg)] else executed w) \<and>
     (\<forall>j < length (UserConnections w).
        UserConnections w' ! j =
          (if User j \<noteq> source
           then pushAction (msg\<lparr>executionType := Local\<rparr>) (UserConnections w ! j)
           else UserConnections w ! j))"
proof -
  from queueToPeers_Some [OF assms(4), of 0 source "msg\<lparr>executionType := Local\<rparr>"]
  obtain cs' where cs': "queueToPeers 0 source (msg\<lparr>executionType := Local\<rparr>) (UserConnections w) = Some cs'" ..
  note n = queueToPeers_nth [OF cs']
  show ?thesis
  proof (cases "executionType msg AND Local \<noteq> 0 \<or> executionType msg AND Server \<noteq> 0")
    case True
    have "HandleEntityAction source msg w =
      Returns (w\<lparr>actionSender := None,
                 executed := executed w @ [(entityId msg, actionName msg, parameters msg)],
                 UserConnections := cs'\<rparr>)"
      using assms(1,2,3,5) True cs'
      by (simp add: HandleEntityAction_def Let_def Exec_Local)
    with n True show ?thesis by simp
  next
    case False
    have "HandleEntityAction source msg w =
      Returns (w\<lparr>actionSender := None, UserConnections := cs'\<rparr>)"
      using assms(1,2,3,5) False cs'
      by (simp add: HandleEntityAction_def Let_def)
    with n False show ?thesis by simp
  qed
qed

text \<open>
  C7: a server holds three connections; the second is not authenticated and has no sync
  state.  The first sends an action with \<open>Server | Peers\<close>.  The loop of
  \<^verbatim>\<open>HandleEntityAction\<close> checks neither \<open>authenticated\<close> nor the sync state and
  dereferences the null sync state of the second connection; the third connection is not
  reached.
\<close>

theorem C7_null_sync_state:
  "HandleEntityAction (User 0) hello (server_world [client, pending_client, client]) = NullDereference"
  by (simp add: HandleEntityAction_def server_world_def hello_def Exec_Local [unfolded Local_def] Let_def
      Server_def Peers_def Local_def client_def pending_client_def)

text \<open>So the call leaves no state behind, and nothing is queued for the third connection.\<close>

theorem C7_null_sync_state_witness:
  "stateOf (HandleEntityAction (User 0) hello (server_world [client, pending_client, client])) = None"
  using C7_null_sync_state by simp

text \<open>
  \<^verbatim>\<open>OnActionTriggered\<close>, at the same connections, checks \<open>authenticated\<close> and queues the
  action for the first and the third connection.
\<close>

lemma OnActionTriggered_skips_unauthenticated:
  "OnActionTriggered 1 ''Hello'' [''world''] Peers (server_world [client, pending_client, client])
   = Returns (server_world [client\<lparr>syncState := Some (empty_sync_state\<lparr>queuedActions := [hello\<lparr>executionType := Local\<rparr>]\<rparr>)\<rparr>, pending_client,
       client\<lparr>syncState := Some (empty_sync_state\<lparr>queuedActions := [hello\<lparr>executionType := Local\<rparr>]\<rparr>)\<rparr>])"
  by (simp add: OnActionTriggered.simps server_world_def hello_def Let_def
      Server_def Peers_def Local_def client_def pending_client_def empty_sync_state_def)


subsection \<open>C4: out-of-order rigid-body updates\<close>

lemma HandleRigidBodyChange_cases:
  assumes "HandleRigidBodyChange lib this source packetId sc r w = Some w'"
    and "syncState (serverConnection w) = Some st"
  shows "w' = w \<or>
     (\<exists>i. w' = setInterpolation (wireEntityID r) i st w \<and>
        (\<forall>interp. entityInterpolations st (wireEntityID r) = Some interp \<longrightarrow>
           \<not> (transport (getConnection w source) = SocketOverUDP \<and>
              PacketIDIsNewerThan lib (lastReceivedPacketCounter interp) packetId)))"
proof (cases "sc (wireEntityID r)")
  case None
  with assms show ?thesis by (simp add: HandleRigidBodyChange_def)
next
  case (Some e)
  show ?thesis
  proof (cases "ecPlaceable e")
    case None
    with assms Some show ?thesis by (simp add: HandleRigidBodyChange_def)
  next
    case pl: (Some pl)
    show ?thesis
    proof (cases "entityInterpolations st (wireEntityID r)")
      case None
      with assms Some pl show ?thesis
        by (simp add: HandleRigidBodyChange_def Let_def split: if_splits) blast+
    next
      case i: (Some interp)
      with assms Some pl show ?thesis
        by (simp add: HandleRigidBodyChange_def Let_def split: if_splits) blast+
    qed
  qed
qed

lemma transport_setInterpolation:
  "transport (getConnection (setInterpolation e i st w) source) = transport (getConnection w source)"
  by (cases source) (simp_all add: setInterpolation_def getConnection_def)

lemma HandleRigidBodyChange_stale:
  assumes "HandleRigidBodyChange lib this source packetId sc r w = Some w'"
    and "syncState (serverConnection w) = Some st"
    and "entityInterpolations st E = Some interp"
    and "transport (getConnection w source) = SocketOverUDP"
    and "PacketIDIsNewerThan lib (lastReceivedPacketCounter interp) packetId"
  shows "scene w' = scene w \<and> transport (getConnection w' source) = SocketOverUDP \<and>
     (\<exists>st'. syncState (serverConnection w') = Some st' \<and> entityInterpolations st' E = Some interp)"
proof -
  from HandleRigidBodyChange_cases [OF assms(1,2)]
  consider "w' = w"
    | i where "w' = setInterpolation (wireEntityID r) i st w" "wireEntityID r \<noteq> E"
    using assms(3,4,5) by auto
  then show ?thesis
  proof cases
    case 1
    with assms show ?thesis by simp
  next
    case 2
    have "scene w' = scene w" by (simp add: 2 setInterpolation_def)
    moreover have "transport (getConnection w' source) = SocketOverUDP"
      by (simp add: 2 transport_setInterpolation assms(4))
    moreover have "\<exists>st'. syncState (serverConnection w') = Some st' \<and> entityInterpolations st' E = Some interp"
      using 2 assms(3) by (simp add: setInterpolation_def)
    ultimately show ?thesis by simp
  qed
qed

lemma HandleRigidBodyChanges_loop_stale:
  assumes "HandleRigidBodyChanges_loop lib this source packetId sc rs w = Some w'"
    and "syncState (serverConnection w) = Some st"
    and "entityInterpolations st E = Some interp"
    and "transport (getConnection w source) = SocketOverUDP"
    and "PacketIDIsNewerThan lib (lastReceivedPacketCounter interp) packetId"
  shows "scene w' = scene w \<and>
     (\<exists>st'. syncState (serverConnection w') = Some st' \<and> entityInterpolations st' E = Some interp)"
  using assms
proof (induction rs arbitrary: w st)
  case Nil
  then show ?case by simp
next
  case (Cons r rs)
  from Cons.prems(1) obtain w1 where
    s: "HandleRigidBodyChange lib this source packetId sc r w = Some w1" and
    l: "HandleRigidBodyChanges_loop lib this source packetId sc rs w1 = Some w'"
    by (auto split: option.splits)
  from HandleRigidBodyChange_stale [OF s Cons.prems(2,3,4,5)]
  obtain st1 where 1: "scene w1 = scene w" "transport (getConnection w1 source) = SocketOverUDP"
    "syncState (serverConnection w1) = Some st1" "entityInterpolations st1 E = Some interp"
    by auto
  from Cons.IH [OF l 1(3) 1(4) 1(2) Cons.prems(5)] 1(1) show ?case by simp
qed


lemma HandleRigidBodyChange_transport:
  assumes "HandleRigidBodyChange lib this source packetId sc r w = Some w'"
  shows "transport (getConnection w' source) = transport (getConnection w source)"
proof (cases "syncState (serverConnection w)")
  case None
  with assms show ?thesis by (simp add: HandleRigidBodyChange_def)
next
  case (Some st)
  from HandleRigidBodyChange_cases [OF assms Some] show ?thesis
    by (auto simp add: transport_setInterpolation)
qed

lemma HandleRigidBodyChange_applied:
  assumes "HandleRigidBodyChange lib this source packetId sc r w = Some w'"
    and "transport (getConnection w source) \<noteq> SocketOverUDP"
    and "sc (wireEntityID r) \<noteq> None"
    and "posSendType r \<noteq> 0 \<or> rotSendType r \<noteq> 0 \<or> scaleSendType r \<noteq> 0 \<or>
         velSendType r \<noteq> 0 \<or> angVelSendType r \<noteq> 0"
  shows "\<exists>st' i. syncState (serverConnection w') = Some st' \<and>
     entityInterpolations st' (wireEntityID r) = Some i \<and> lastReceivedPacketCounter i = packetId"
  using assms
  by (auto simp add: HandleRigidBodyChange_def Let_def setInterpolation_def
      updateInterpolation_def createInterpolation_def
      split: option.splits if_splits prod.splits)

lemma HandleRigidBodyChange_counter_kept:
  assumes "HandleRigidBodyChange lib this source packetId sc r w = Some w'"
    and "syncState (serverConnection w) = Some st"
    and "entityInterpolations st E = Some i"
    and "lastReceivedPacketCounter i = packetId"
  shows "\<exists>st' i'. syncState (serverConnection w') = Some st' \<and>
     entityInterpolations st' E = Some i' \<and> lastReceivedPacketCounter i' = packetId"
  using assms
  by (auto simp add: HandleRigidBodyChange_def Let_def setInterpolation_def
      updateInterpolation_def createInterpolation_def
      split: option.splits if_splits prod.splits)

lemma HandleRigidBodyChanges_loop_counter_kept:
  assumes "HandleRigidBodyChanges_loop lib this source packetId sc rs w = Some w'"
    and "syncState (serverConnection w) = Some st"
    and "entityInterpolations st E = Some i"
    and "lastReceivedPacketCounter i = packetId"
  shows "\<exists>st' i'. syncState (serverConnection w') = Some st' \<and>
     entityInterpolations st' E = Some i' \<and> lastReceivedPacketCounter i' = packetId"
  using assms
proof (induction rs arbitrary: w st i)
  case Nil
  then show ?case by simp
next
  case (Cons r rs)
  from Cons.prems(1) obtain w1 where
    s: "HandleRigidBodyChange lib this source packetId sc r w = Some w1" and
    l: "HandleRigidBodyChanges_loop lib this source packetId sc rs w1 = Some w'"
    by (auto split: option.splits)
  from HandleRigidBodyChange_counter_kept [OF s Cons.prems(2,3,4)]
  obtain st1 i1 where "syncState (serverConnection w1) = Some st1"
    "entityInterpolations st1 E = Some i1" "lastReceivedPacketCounter i1 = packetId"
    by blast
  from Cons.IH [OF l this] show ?case .
qed

lemma HandleRigidBodyChanges_loop_applied:
  assumes "HandleRigidBodyChanges_loop lib this source packetId sc rs w = Some w'"
    and "transport (getConnection w source) \<noteq> SocketOverUDP"
    and "r \<in> set rs" and "sc (wireEntityID r) \<noteq> None"
    and "posSendType r \<noteq> 0 \<or> rotSendType r \<noteq> 0 \<or> scaleSendType r \<noteq> 0 \<or>
         velSendType r \<noteq> 0 \<or> angVelSendType r \<noteq> 0"
  shows "\<exists>st' i. syncState (serverConnection w') = Some st' \<and>
     entityInterpolations st' (wireEntityID r) = Some i \<and> lastReceivedPacketCounter i = packetId"
  using assms(1,2,3)
proof (induction rs arbitrary: w)
  case Nil
  then show ?case by simp
next
  case (Cons a rs)
  from Cons.prems(1) obtain w1 where
    s: "HandleRigidBodyChange lib this source packetId sc a w = Some w1" and
    l: "HandleRigidBodyChanges_loop lib this source packetId sc rs w1 = Some w'"
    by (auto split: option.splits)
  show ?case
  proof (cases "a = r")
    case True
    from HandleRigidBodyChange_applied [OF s [unfolded True] Cons.prems(2) assms(4,5)]
    obtain st1 i1 where "syncState (serverConnection w1) = Some st1"
      "entityInterpolations st1 (wireEntityID r) = Some i1" "lastReceivedPacketCounter i1 = packetId"
      by blast
    from HandleRigidBodyChanges_loop_counter_kept [OF l this] show ?thesis .
  next
    case False
    with Cons.prems(3) have "r \<in> set rs" by simp
    moreover have "transport (getConnection w1 source) \<noteq> SocketOverUDP"
      using HandleRigidBodyChange_transport [OF s] Cons.prems(2) by simp
    ultimately show ?thesis using Cons.IH [OF l] by blast
  qed
qed

lemma HandleRigidBodyChange_no_comparison:
  assumes "transport (getConnection w source) \<noteq> SocketOverUDP"
  shows "HandleRigidBodyChange (lib\<lparr>PacketIDIsNewerThan := cmp\<rparr>) this source packetId sc r w
       = HandleRigidBodyChange lib this source packetId sc r w"
proof -
  have 1: "readRigidBody (lib\<lparr>PacketIDIsNewerThan := cmp\<rparr>) = readRigidBody lib"
    by (intro ext) (simp add: readRigidBody_def)
  have 2: "updateInterpolation (lib\<lparr>PacketIDIsNewerThan := cmp\<rparr>) = updateInterpolation lib"
    by (intro ext) (simp add: updateInterpolation_def Let_def split: prod.splits)
  have 3: "createInterpolation (lib\<lparr>PacketIDIsNewerThan := cmp\<rparr>) = createInterpolation lib"
    by (intro ext) (simp add: createInterpolation_def split: prod.splits)
  from assms show ?thesis
    unfolding HandleRigidBodyChange_def 1 2 3 by (simp add: Let_def split: option.splits)
qed

lemma HandleRigidBodyChanges_loop_no_comparison:
  assumes "transport (getConnection w source) \<noteq> SocketOverUDP"
  shows "HandleRigidBodyChanges_loop (lib\<lparr>PacketIDIsNewerThan := cmp\<rparr>) this source packetId sc rs w
       = HandleRigidBodyChanges_loop lib this source packetId sc rs w"
  using assms
proof (induction rs arbitrary: w)
  case Nil
  then show ?case by simp
next
  case (Cons r rs)
  show ?case
  proof (cases "HandleRigidBodyChange lib this source packetId sc r w")
    case None
    then show ?thesis by (simp add: HandleRigidBodyChange_no_comparison [OF Cons.prems])
  next
    case (Some w1)
    have "transport (getConnection w1 source) \<noteq> SocketOverUDP"
      using HandleRigidBodyChange_transport [OF Some] Cons.prems by simp
    from Cons.IH [OF this] Some show ?thesis
      by (simp add: HandleRigidBodyChange_no_comparison [OF Cons.prems])
  qed
qed

lemma HandleRigidBodyChange_scene:
  assumes "HandleRigidBodyChange lib this source packetId sc r w = Some w'"
  shows "scene w' = scene w"
proof (cases "syncState (serverConnection w)")
  case None
  with assms show ?thesis by (simp add: HandleRigidBodyChange_def)
next
  case (Some st)
  from HandleRigidBodyChange_cases [OF assms Some] show ?thesis
    by (auto simp add: setInterpolation_def)
qed

lemma HandleRigidBodyChanges_loop_scene:
  "HandleRigidBodyChanges_loop lib this source packetId sc rs w = Some w' \<Longrightarrow> scene w' = scene w"
proof (induction rs arbitrary: w)
  case Nil
  then show ?case by simp
next
  case (Cons r rs)
  from Cons.prems obtain w1 where
    s: "HandleRigidBodyChange lib this source packetId sc r w = Some w1" and
    l: "HandleRigidBodyChanges_loop lib this source packetId sc rs w1 = Some w'"
    by (auto split: option.splits)
  from Cons.IH [OF l] HandleRigidBodyChange_scene [OF s] show ?case by simp
qed

lemma HandleRigidBodyChanges_scene:
  assumes "stateOf (HandleRigidBodyChanges lib this source packetId data w) = Some w'"
  shows "scene w' = scene w"
proof (cases "scene w")
  case None
  with assms show ?thesis by (simp add: HandleRigidBodyChanges_def)
next
  case (Some sc)
  obtain records throws where d: "DeserializeRigidBodies lib data = (records, throws)"
    by (cases "DeserializeRigidBodies lib data")
  from assms Some d have "HandleRigidBodyChanges_loop lib this source packetId sc records w = Some w'"
    by (auto simp: HandleRigidBodyChanges_def split: option.splits if_splits)
  from HandleRigidBodyChanges_loop_scene [OF this] show ?thesis .
qed

text \<open>
  C4, amended.  Take a call of \<^verbatim>\<open>HandleRigidBodyChanges\<close> that leaves a state, whether it
  returns or throws.
  \<^item> When the message arrives on a kNet connection over UDP, for every entity with an
    interpolation state whose \<open>lastReceivedPacketCounter\<close> is newer than the packet id of
    the message (\<^verbatim>\<open>PacketIDIsNewerThan(last, packetId)\<close>), the entity's interpolation state
    is as before, whatever the message holds.
  \<^item> On every connection the scene is as before: the handler writes interpolation states
    only.
  \<^item> On any other connection (TCP, no socket, not kNet) the packet ids are not compared:
    the outcome is the same with any comparison in the place of
    \<^verbatim>\<open>PacketIDIsNewerThan\<close>; and every part of the message that names an entity of the
    scene and sends at least one field is applied: afterwards the entity has an
    interpolation state whose \<open>lastReceivedPacketCounter\<close> is the packet id of the message.
\<close>

theorem C4_latest_data_over_UDP:
  assumes "stateOf (HandleRigidBodyChanges lib this source packetId data w) = Some w'"
  shows "scene w' = scene w \<and>
     (\<forall>st E interp. transport (getConnection w source) = SocketOverUDP \<and>
        syncState (serverConnection w) = Some st \<and>
        entityInterpolations st E = Some interp \<and>
        PacketIDIsNewerThan lib (lastReceivedPacketCounter interp) packetId \<longrightarrow>
      scene w' = scene w \<and>
      (\<exists>st'. syncState (serverConnection w') = Some st' \<and> entityInterpolations st' E = Some interp)) \<and>
     (transport (getConnection w source) \<noteq> SocketOverUDP \<longrightarrow>
      (\<forall>cmp. HandleRigidBodyChanges (lib\<lparr>PacketIDIsNewerThan := cmp\<rparr>) this source packetId data w
            = HandleRigidBodyChanges lib this source packetId data w) \<and>
      (\<forall>sc r. scene w = Some sc \<and> r \<in> set (fst (DeserializeRigidBodies lib data)) \<and>
          sc (wireEntityID r) \<noteq> None \<and>
          (posSendType r \<noteq> 0 \<or> rotSendType r \<noteq> 0 \<or> scaleSendType r \<noteq> 0 \<or>
           velSendType r \<noteq> 0 \<or> angVelSendType r \<noteq> 0) \<longrightarrow>
        (\<exists>st' i. syncState (serverConnection w') = Some st' \<and>
           entityInterpolations st' (wireEntityID r) = Some i \<and>
           lastReceivedPacketCounter i = packetId)))"
proof (intro conjI allI impI)
  show "scene w' = scene w" by (rule HandleRigidBodyChanges_scene [OF assms])
next
  fix st E interp
  assume a: "transport (getConnection w source) = SocketOverUDP \<and>
        syncState (serverConnection w) = Some st \<and>
        entityInterpolations st E = Some interp \<and>
        PacketIDIsNewerThan lib (lastReceivedPacketCounter interp) packetId"
  have "scene w' = scene w \<and>
      (\<exists>st'. syncState (serverConnection w') = Some st' \<and> entityInterpolations st' E = Some interp)"
  proof (cases "scene w")
    case None
    with assms a show ?thesis by (simp add: HandleRigidBodyChanges_def)
  next
    case (Some sc)
    obtain records throws where d: "DeserializeRigidBodies lib data = (records, throws)"
      by (cases "DeserializeRigidBodies lib data")
    from assms Some d have "HandleRigidBodyChanges_loop lib this source packetId sc records w = Some w'"
      by (auto simp: HandleRigidBodyChanges_def split: option.splits if_splits)
    from HandleRigidBodyChanges_loop_stale [OF this] a show ?thesis by blast
  qed
  then show "scene w' = scene w"
    "\<exists>st'. syncState (serverConnection w') = Some st' \<and> entityInterpolations st' E = Some interp"
    by simp_all
next
  fix cmp
  assume "transport (getConnection w source) \<noteq> SocketOverUDP"
  then show "HandleRigidBodyChanges (lib\<lparr>PacketIDIsNewerThan := cmp\<rparr>) this source packetId data w
            = HandleRigidBodyChanges lib this source packetId data w"
    by (cases "scene w"; cases "DeserializeRigidBodies lib data")
      (simp_all add: HandleRigidBodyChanges_def HandleRigidBodyChanges_loop_no_comparison)
next
  fix sc r
  assume t: "transport (getConnection w source) \<noteq> SocketOverUDP"
    and b: "scene w = Some sc \<and> r \<in> set (fst (DeserializeRigidBodies lib data)) \<and>
          sc (wireEntityID r) \<noteq> None \<and>
          (posSendType r \<noteq> 0 \<or> rotSendType r \<noteq> 0 \<or> scaleSendType r \<noteq> 0 \<or>
           velSendType r \<noteq> 0 \<or> angVelSendType r \<noteq> 0)"
  obtain records throws where d: "DeserializeRigidBodies lib data = (records, throws)"
    by (cases "DeserializeRigidBodies lib data")
  from assms b d have l: "HandleRigidBodyChanges_loop lib this source packetId sc records w = Some w'"
    by (auto simp: HandleRigidBodyChanges_def split: option.splits if_splits)
  from b d have "r \<in> set records" by simp
  from HandleRigidBodyChanges_loop_applied [OF l t this] b
  show "\<exists>st' i. syncState (serverConnection w') = Some st' \<and>
           entityInterpolations st' (wireEntityID r) = Some i \<and>
           lastReceivedPacketCounter i = packetId"
    by blast
qed


text \<open>The stale update of the example, received over UDP, leaves the client as it was.\<close>

lemma run_udp:
  "HandleRigidBodyChanges example_library (SyncManager_ctor no_flags) ServerConnection 5 [True]
     (client_world SocketOverUDP) = Returns (client_world SocketOverUDP)"
  by (simp add: HandleRigidBodyChanges_def HandleRigidBodyChange_def example_library_def
      client_world_def client_def empty_sync_state_def stale_update_def placed_entity_def
      interpolation_at_10_def getConnection_def newer16_def Let_def)

text \<open>
  The stale update of the example (packet 5 after packet 10), received on a connection
  that is not a kNet connection, is applied.
\<close>

lemma run_not_kNet:
  "\<exists>w'. HandleRigidBodyChanges example_library (SyncManager_ctor no_flags) ServerConnection 5 [True]
     (client_world NotKNet) = Returns w'"
  by (simp add: HandleRigidBodyChanges_def HandleRigidBodyChange_def example_library_def
      client_world_def client_def empty_sync_state_def stale_update_def placed_entity_def
      interpolation_at_10_def getConnection_def newer16_def Let_def)

theorem C4_latest_data_over_UDP_witness:
  "transport (getConnection (client_world SocketOverUDP) ServerConnection) = SocketOverUDP \<and>
   syncState (serverConnection (client_world SocketOverUDP))
     = Some (empty_sync_state\<lparr>entityInterpolations := [1 \<mapsto> interpolation_at_10]\<rparr>) \<and>
   PacketIDIsNewerThan example_library (lastReceivedPacketCounter interpolation_at_10) 5 \<and>
   stateOf (HandleRigidBodyChanges example_library (SyncManager_ctor no_flags) ServerConnection 5 [True]
     (client_world SocketOverUDP)) = Some (client_world SocketOverUDP) \<and>
   scene (client_world SocketOverUDP) = Some [1 \<mapsto> placed_entity] \<and>
   transport (getConnection (client_world NotKNet) ServerConnection) \<noteq> SocketOverUDP \<and>
   syncState (serverConnection (client_world NotKNet))
     = Some (empty_sync_state\<lparr>entityInterpolations := [1 \<mapsto> interpolation_at_10]\<rparr>) \<and>
   fst (DeserializeRigidBodies example_library [True]) = [stale_update] \<and>
   wireEntityID stale_update = 1 \<and> posSendType stale_update \<noteq> 0 \<and>
   (\<exists>w' st' i. HandleRigidBodyChanges example_library (SyncManager_ctor no_flags) ServerConnection 5 [True]
        (client_world NotKNet) = Returns w' \<and>
      syncState (serverConnection w') = Some st' \<and> entityInterpolations st' 1 = Some i \<and>
      lastReceivedPacketCounter i = 5) \<and>
   HandleRigidBodyChanges (example_library\<lparr>PacketIDIsNewerThan := (\<lambda>_ _. True)\<rparr>)
       (SyncManager_ctor no_flags) ServerConnection 5 [True] (client_world NotKNet)
     = HandleRigidBodyChanges example_library (SyncManager_ctor no_flags) ServerConnection 5 [True]
         (client_world NotKNet)"
proof -
  let ?mgr = "SyncManager_ctor no_flags"
  have 1: "transport (getConnection (client_world SocketOverUDP) ServerConnection) = SocketOverUDP"
    by (simp add: client_world_def getConnection_def client_def)
  have 2: "syncState (serverConnection (client_world SocketOverUDP))
     = Some (empty_sync_state\<lparr>entityInterpolations := [1 \<mapsto> interpolation_at_10]\<rparr>)"
    by (simp add: client_world_def client_def)
  have 3: "entityInterpolations (empty_sync_state\<lparr>entityInterpolations := [1 \<mapsto> interpolation_at_10]\<rparr>) 1
     = Some interpolation_at_10" by simp
  have 4: "PacketIDIsNewerThan example_library (lastReceivedPacketCounter interpolation_at_10) 5"
    by (simp add: example_library_def interpolation_at_10_def newer16_def)
  have 5: "stateOf (HandleRigidBodyChanges example_library ?mgr ServerConnection 5 [True]
     (client_world SocketOverUDP)) = Some (client_world SocketOverUDP)"
    by (simp add: run_udp)
  from C4_latest_data_over_UDP [OF 5] 1 2 3 4
  have "scene (client_world SocketOverUDP) = scene (client_world SocketOverUDP)" by blast
  then have 6: "scene (client_world SocketOverUDP) = Some [1 \<mapsto> placed_entity]"
    by (simp add: client_world_def)
  have 7: "transport (getConnection (client_world NotKNet) ServerConnection) \<noteq> SocketOverUDP"
    by (simp add: client_world_def getConnection_def client_def)
  have 8: "syncState (serverConnection (client_world NotKNet))
     = Some (empty_sync_state\<lparr>entityInterpolations := [1 \<mapsto> interpolation_at_10]\<rparr>)"
    by (simp add: client_world_def client_def)
  have 9: "fst (DeserializeRigidBodies example_library [True]) = [stale_update]"
    by (simp add: example_library_def)
  have 10: "wireEntityID stale_update = 1" "posSendType stale_update \<noteq> 0"
    by (simp_all add: stale_update_def)
  have 11: "scene (client_world NotKNet) = Some [1 \<mapsto> placed_entity]"
    by (simp add: client_world_def)
  from run_not_kNet obtain w' where
    r: "HandleRigidBodyChanges example_library ?mgr ServerConnection 5 [True] (client_world NotKNet)
        = Returns w'" by blast
  then have s: "stateOf (HandleRigidBodyChanges example_library ?mgr ServerConnection 5 [True]
        (client_world NotKNet)) = Some w'" by simp
  note inst = C4_latest_data_over_UDP [OF s]
  from inst 7 have
    a: "\<forall>cmp. HandleRigidBodyChanges (example_library\<lparr>PacketIDIsNewerThan := cmp\<rparr>) ?mgr
            ServerConnection 5 [True] (client_world NotKNet)
          = HandleRigidBodyChanges example_library ?mgr ServerConnection 5 [True] (client_world NotKNet)"
    and b: "\<forall>sc r. scene (client_world NotKNet) = Some sc \<and>
          r \<in> set (fst (DeserializeRigidBodies example_library [True])) \<and>
          sc (wireEntityID r) \<noteq> None \<and>
          (posSendType r \<noteq> 0 \<or> rotSendType r \<noteq> 0 \<or> scaleSendType r \<noteq> 0 \<or>
           velSendType r \<noteq> 0 \<or> angVelSendType r \<noteq> 0) \<longrightarrow>
        (\<exists>st' i. syncState (serverConnection w') = Some st' \<and>
           entityInterpolations st' (wireEntityID r) = Some i \<and>
           lastReceivedPacketCounter i = 5)"
    by blast+
  from b [rule_format, of "[1 \<mapsto> placed_entity]" stale_update] 9 10 11
  obtain st' i where "syncState (serverConnection w') = Some st'"
    "entityInterpolations st' 1 = Some i" "lastReceivedPacketCounter i = 5"
    by auto
  with r have c: "\<exists>w' st' i. HandleRigidBodyChanges example_library ?mgr ServerConnection 5 [True]
        (client_world NotKNet) = Returns w' \<and>
      syncState (serverConnection w') = Some st' \<and> entityInterpolations st' 1 = Some i \<and>
      lastReceivedPacketCounter i = 5" by blast
  from a have d: "HandleRigidBodyChanges (example_library\<lparr>PacketIDIsNewerThan := (\<lambda>_ _. True)\<rparr>)
       ?mgr ServerConnection 5 [True] (client_world NotKNet)
     = HandleRigidBodyChanges example_library ?mgr ServerConnection 5 [True] (client_world NotKNet)"
    by blast
  from 1 2 4 5 6 7 8 9 10 c d show ?thesis by blast
qed

text \<open>
  C4, as the specification states it, fails: the packet ids are compared only when the
  source is a kNet connection over UDP.  Over TCP the same stale update (packet 5 after
  packet 10) is applied: it overwrites the packet counter and the end position.
\<close>

theorem C4_stale_applied_over_TCP_counterexample:
  "PacketIDIsNewerThan example_library (lastReceivedPacketCounter interpolation_at_10) 5 \<and>
   (\<exists>w' st'. HandleRigidBodyChanges example_library (SyncManager_ctor no_flags) ServerConnection 5 [True]
            (client_world SocketOverTCP) = Returns w' \<and>
       syncState (serverConnection w') = Some st' \<and>
       entityInterpolations st' 1 \<noteq> Some interpolation_at_10 \<and>
       map_option lastReceivedPacketCounter (entityInterpolations st' 1) = Some 5 \<and>
       map_option (statePos \<circ> interpEnd) (entityInterpolations st' 1) = Some (float3 5 0 0))"
  by (simp add: HandleRigidBodyChanges_def HandleRigidBodyChange_def example_library_def
      client_world_def client_def empty_sync_state_def stale_update_def placed_entity_def
      interpolation_at_10_def getConnection_def newer16_def Let_def setInterpolation_def
      unit_transform_def resting_def updateInterpolation_def readRigidBody_def float3_zero_def)

subsection \<open>C3 and C10: the rigid-body encode pass\<close>




lemma clearBits_flags [simp]:
  "compIsNew (clearBits b m cs) = compIsNew cs"
  "compRemoved (clearBits b m cs) = compRemoved cs"
  by (simp_all add: clearBits_def)
















lemma flushIfFull_passEntities [simp]: "passEntities (flushIfFull enc p) = passEntities p"
  by (simp add: flushIfFull_def)







lemma recordsOf_rigidBodyMessage [simp]:
  "recordsOf (rigidBodyMessage rel rs) = rs" "reliable (rigidBodyMessage rel rs) = rel"
  by (simp_all add: recordsOf_def rigidBodyMessage_def)


lemma comesToRest_cong:
  "es eid = es' eid \<Longrightarrow> comesToRestLinear sc es eid = comesToRestLinear sc es' eid"
  "es eid = es' eid \<Longrightarrow> comesToRestAngular sc es eid = comesToRestAngular sc es' eid"
  by (simp_all add: comesToRestLinear_def comesToRestAngular_def restCandidate_def)





















lemma rememberSent_components [simp]: "components (rememberSent now r ess) = components ess"
  by (simp add: rememberSent_def Let_def)







subsection \<open>C6: the two layouts of an attribute edit\<close>

lemma Read_u8_Add_u8 [simp]: "Read_u8 (Add_u8 v @ rest) = Some (v, rest)"
proof -
  have "horner_sum of_bool 2 (map (bit v) [0..<8]) = take_bit 8 v"
    by (rule horner_sum_bit_eq_take_bit)
  moreover have "take_bit 8 v = v"
    by (simp add: take_bit_word_eq_self)
  ultimately show ?thesis
    by (simp add: Read_u8_def Add_u8_def)
qed

lemma FromBinary_ToBinary:
  assumes "wellFormed attrBits a" "attrTypeId r = attrTypeId a"
  shows "FromBinary attrBits r (ToBinary a @ rest) = Some (r\<lparr>attrValue := attrValue a\<rparr>, rest)"
  using assms by (simp add: FromBinary_def ToBinary_def wellFormed_def)

lemma readAttribute_ToBinary:
  assumes "wellFormed attrBits a" "attrTypeId r = attrTypeId a"
  shows "readAttribute attrBits isServer i r res (ToBinary a @ rest) =
         Some (res\<lparr>edAttributes := (if \<not> isServer \<and> interpolation r then edAttributes res
                                      else (edAttributes res)[i := Some (r\<lparr>attrValue := attrValue a\<rparr>)]),
                   edApplied := edApplied res @ [(i, attrValue a, \<not> isServer \<and> interpolation r)]\<rparr>, rest)"
  by (simp add: readAttribute_def FromBinary_ToBinary [OF assms])

lemma kind_update:
  assumes "map kind xs = map kind ys" "i < length xs" "xs ! i = Some r"
  shows "map kind (xs[i := Some (r\<lparr>attrValue := v\<rparr>)]) = map kind ys"
proof -
  have "kind (Some (r\<lparr>attrValue := v\<rparr>)) = kind (xs ! i)"
    using assms(3) by (simp add: kind_def)
  then have "map kind (xs[i := Some (r\<lparr>attrValue := v\<rparr>)]) = (map kind xs)[i := map kind xs ! i]"
    using assms(2) by (simp add: map_update)
  then show ?thesis
    using assms(1) by simp
qed

lemma kind_lookup:
  assumes "map kind xs = map kind attributes" "sameLayout attrs attributes"
    "i < length attrs" "attrs ! i = Some a"
  obtains r where "i < length xs" "xs ! i = Some r" "attrTypeId r = attrTypeId a"
    "interpolation r = interpolation (the (attributes ! i))"
proof -
  have len: "length xs = length attributes" "length attributes = length attrs"
    using assms(1,2) map_eq_imp_length_eq [of kind xs kind attributes] by (auto simp add: sameLayout_def)
  have "kind (xs ! i) = kind (attributes ! i)"
    using assms(1,3) len by (metis nth_map)
  moreover have "map_option attrTypeId (attributes ! i) = Some (attrTypeId a)"
    using assms(2,3,4) by (simp add: sameLayout_def)
  ultimately obtain r where "xs ! i = Some r" "attrTypeId r = attrTypeId a"
    "interpolation r = interpolation (the (attributes ! i))"
    by (cases "xs ! i"; cases "attributes ! i") (auto simp add: kind_def)
  then show ?thesis
    using that len assms(3) by simp
qed

lemma readIndices_writeIndices:
  assumes "writeIndices attrs changed = Some bs"
    and "\<forall>i\<in>set changed. i < 256 \<and> wellFormed attrBits (the (attrs ! i))"
    and "map kind (edAttributes res) = map kind attributes"
    and "sameLayout attrs attributes"
  shows "\<exists>res'. readIndices attrBits isServer (length changed) res (bs @ rest) = Returns res' \<and>
           edApplied res' = edApplied res @ expectedReads isServer attrs attributes changed \<and>
           edWarnings res' = edWarnings res \<and>
           map kind (edAttributes res') = map kind attributes"
  using assms
proof (induction changed arbitrary: res bs)
  case Nil
  then show ?case by (simp add: expectedReads_def)
next
  case (Cons i changed)
  from Cons.prems(1) obtain a bs' where a: "i < length attrs" "attrs ! i = Some a"
    and bs': "writeIndices attrs changed = Some bs'"
    and bs: "bs = Add_u8 (word_of_nat i) @ ToBinary a @ bs'"
    by (auto split: if_splits option.splits)
  from Cons.prems(2) have i: "i < 256" and wf: "wellFormed attrBits a"
    using a by auto
  have u: "unat (word_of_nat i :: u8) = i"
    using i by (simp add: unat_of_nat)
  from kind_lookup [OF Cons.prems(3) Cons.prems(4) a]
  obtain r where r: "i < length (edAttributes res)" "edAttributes res ! i = Some r"
    "attrTypeId r = attrTypeId a" "interpolation r = interpolation (the (attributes ! i))"
    by blast
  define res1 where "res1 = res\<lparr>edAttributes := (if \<not> isServer \<and> interpolation r then edAttributes res
                                      else (edAttributes res)[i := Some (r\<lparr>attrValue := attrValue a\<rparr>)]),
                   edApplied := edApplied res @ [(i, attrValue a, \<not> isServer \<and> interpolation r)]\<rparr>"
  have step: "readAttribute attrBits isServer i r res (ToBinary a @ bs' @ rest) = Some (res1, bs' @ rest)"
    unfolding res1_def by (rule readAttribute_ToBinary [OF wf r(3)])
  have inv1: "map kind (edAttributes res1) = map kind attributes"
    using Cons.prems(3) kind_update [OF Cons.prems(3) r(1) r(2)] by (simp add: res1_def)
  from Cons.IH [OF bs' _ inv1 Cons.prems(4)] Cons.prems(2)
  obtain res' where res': "readIndices attrBits isServer (length changed) res1 (bs' @ rest) = Returns res'"
    "edApplied res' = edApplied res1 @ expectedReads isServer attrs attributes changed"
    "edWarnings res' = edWarnings res1"
    "map kind (edAttributes res') = map kind attributes"
    by auto
  have "readIndices attrBits isServer (length (i # changed)) res (bs @ rest) = Returns res'"
    using r(1,2) step res'(1) by (simp add: bs u)
  moreover have "edApplied res' = edApplied res @ expectedReads isServer attrs attributes (i # changed)"
    using res'(2) a(2) r(4) by (simp add: res1_def expectedReads_def)
  moreover have "edWarnings res' = edWarnings res"
    using res'(3) by (simp add: res1_def)
  ultimately show ?case
    using res'(4) by blast
qed

lemma readBitmask_writeBitmask:
  assumes "writeBitmask attrs dirty is = Some bs"
    and "\<forall>i\<in>set is. i < length attrs \<and> (dirtyBit dirty i \<longrightarrow> wellFormed attrBits (the (attrs ! i)))"
    and "map kind (edAttributes res) = map kind attributes"
    and "sameLayout attrs attributes"
  shows "\<exists>res'. readBitmask attrBits isServer is res (bs @ rest) = Returns res' \<and>
           edApplied res' = edApplied res @
             expectedReads isServer attrs attributes (filter (\<lambda>k. dirtyBit dirty k \<and> attrs ! k \<noteq> None) is) \<and>
           edWarnings res' = edWarnings res \<and>
           map kind (edAttributes res') = map kind attributes"
  using assms
proof (induction "is" arbitrary: res bs)
  case Nil
  then show ?case by (simp add: expectedReads_def)
next
  case (Cons i "is")
  show ?case
  proof (cases "dirtyBit dirty i")
    case False
    with Cons.prems(1) obtain bs' where bs': "writeBitmask attrs dirty is = Some bs'"
      and bs: "bs = False # bs'"
      by auto
    from Cons.IH [OF bs' _ Cons.prems(3) Cons.prems(4)] Cons.prems(2)
    obtain res' where res': "readBitmask attrBits isServer is res (bs' @ rest) = Returns res'"
      "edApplied res' = edApplied res @
         expectedReads isServer attrs attributes (filter (\<lambda>k. dirtyBit dirty k \<and> attrs ! k \<noteq> None) is)"
      "edWarnings res' = edWarnings res"
      "map kind (edAttributes res') = map kind attributes"
      by auto
    have "readBitmask attrBits isServer (i # is) res (bs @ rest) = Returns res'"
      using res'(1) by (simp add: bs)
    then show ?thesis
      using res'(2,3,4) False by auto
  next
    case True
    with Cons.prems(1) obtain a bs' where a: "attrs ! i = Some a"
      and bs': "writeBitmask attrs dirty is = Some bs'"
      and bs: "bs = True # ToBinary a @ bs'"
      by (auto split: option.splits)
    from Cons.prems(2) True a have i: "i < length attrs" and wf: "wellFormed attrBits a"
      by auto
    from kind_lookup [OF Cons.prems(3) Cons.prems(4) i a]
    obtain r where r: "i < length (edAttributes res)" "edAttributes res ! i = Some r"
      "attrTypeId r = attrTypeId a" "interpolation r = interpolation (the (attributes ! i))"
      by blast
    define res1 where "res1 = res\<lparr>edAttributes := (if \<not> isServer \<and> interpolation r then edAttributes res
                                      else (edAttributes res)[i := Some (r\<lparr>attrValue := attrValue a\<rparr>)]),
                   edApplied := edApplied res @ [(i, attrValue a, \<not> isServer \<and> interpolation r)]\<rparr>"
    have step: "readAttribute attrBits isServer i r res (ToBinary a @ bs' @ rest) = Some (res1, bs' @ rest)"
      unfolding res1_def by (rule readAttribute_ToBinary [OF wf r(3)])
    have inv1: "map kind (edAttributes res1) = map kind attributes"
      using Cons.prems(3) kind_update [OF Cons.prems(3) r(1) r(2)] by (simp add: res1_def)
    from Cons.IH [OF bs' _ inv1 Cons.prems(4)] Cons.prems(2)
    obtain res' where res': "readBitmask attrBits isServer is res1 (bs' @ rest) = Returns res'"
      "edApplied res' = edApplied res1 @
         expectedReads isServer attrs attributes (filter (\<lambda>k. dirtyBit dirty k \<and> attrs ! k \<noteq> None) is)"
      "edWarnings res' = edWarnings res1"
      "map kind (edAttributes res') = map kind attributes"
      by auto
    have "readBitmask attrBits isServer (i # is) res (bs @ rest) = Returns res'"
      using r(2) step res'(1) by (simp add: bs)
    moreover have "edApplied res' = edApplied res @
        expectedReads isServer attrs attributes (filter (\<lambda>k. dirtyBit dirty k \<and> attrs ! k \<noteq> None) (i # is))"
      using res'(2) a True r(4) by (simp add: res1_def expectedReads_def)
    moreover have "edWarnings res' = edWarnings res"
      using res'(3) by (simp add: res1_def)
    ultimately show ?thesis
      using res'(4) by blast
  qed
qed

lemma filter_map_concat:
  "filter P (map f xs) = concat (map (\<lambda>j. if P (f j) then [f j] else []) xs)"
  by (induction xs) simp_all

lemma concat_filter_upt:
  "concat (map (\<lambda>i. filter P [i * 8..<i * 8 + 8]) [0..<m]) = filter P [0..<m * 8]"
proof (induction m)
  case 0
  show ?case by simp
next
  case (Suc m)
  have "[0..<Suc m * 8] = [0..<m * 8] @ [m * 8..<m * 8 + 8]"
    using upt_add_eq_append [of 0 "m * 8" 8] by (simp add: add.commute)
  then show ?case
    using Suc by simp
qed

lemma changedAttributes_filter:
  assumes "length attrs \<le> 256"
  shows "changedAttributes attrs dirty =
         filter (\<lambda>k. dirtyBit dirty k \<and> attrs ! k \<noteq> None) [0..<length attrs]"
proof -
  define P where "P k = (dirtyBit dirty k \<and> k < length attrs \<and> attrs ! k \<noteq> None)" for k
  define m where "m = (length attrs + 7) div 8"
  have m: "m \<le> 32" "length attrs \<le> m * 8"
    using assms by (simp_all add: m_def)
  have bit: "dirtyBit dirty (i * 8 + j) = (dirty i AND push_bit j 1 \<noteq> 0)" if "j < 8" for i j
    using that by (simp add: dirtyBit_def)
  have inner: "(let byte = dirty i in
       if byte \<noteq> 0
       then concat (map (\<lambda>j.
              if byte AND push_bit j 1 \<noteq> 0
              then (let attrIndex = (i * 8 + j) mod 256
                    in if attrIndex < length attrs \<and> attrs ! attrIndex \<noteq> None then [attrIndex] else [])
              else []) [0..<8])
       else []) = filter P [i * 8..<i * 8 + 8]" if "i \<in> set [0..<m]" for i
  proof -
    have i: "i < 32" using that m by simp
    have small: "(i * 8 + j) mod 256 = i * 8 + j" if "j \<in> set [0..<8]" for j
      using that i by simp
    have upt: "[i * 8..<i * 8 + 8] = map (\<lambda>j. i * 8 + j) [0..<8]"
      by (simp add: map_add_upt add.commute)
    have "filter P [i * 8..<i * 8 + 8] =
          concat (map (\<lambda>j. if P (i * 8 + j) then [i * 8 + j] else []) [0..<8])"
      unfolding upt by (rule filter_map_concat)
    also have "\<dots> = concat (map (\<lambda>j.
              if dirty i AND push_bit j 1 \<noteq> 0
              then (let attrIndex = (i * 8 + j) mod 256
                    in if attrIndex < length attrs \<and> attrs ! attrIndex \<noteq> None then [attrIndex] else [])
              else []) [0..<8])"
      by (rule arg_cong [where f = concat], rule map_cong [OF refl])
        (simp add: small P_def bit Let_def)
    finally have eq: "filter P [i * 8..<i * 8 + 8] = concat (map (\<lambda>j.
              if dirty i AND push_bit j 1 \<noteq> 0
              then (let attrIndex = (i * 8 + j) mod 256
                    in if attrIndex < length attrs \<and> attrs ! attrIndex \<noteq> None then [attrIndex] else [])
              else []) [0..<8])" .
    show ?thesis
    proof (cases "dirty i = 0")
      case True
      then have "concat (map (\<lambda>j.
              if dirty i AND push_bit j 1 \<noteq> 0
              then (let attrIndex = (i * 8 + j) mod 256
                    in if attrIndex < length attrs \<and> attrs ! attrIndex \<noteq> None then [attrIndex] else [])
              else []) [0..<8]) = []"
        by simp
      then show ?thesis
        using True eq by (simp add: Let_def)
    next
      case False
      then show ?thesis
        using eq by (simp add: Let_def)
    qed
  qed
  have "changedAttributes attrs dirty = concat (map (\<lambda>i. filter P [i * 8..<i * 8 + 8]) [0..<m])"
    unfolding changedAttributes_def m_def [symmetric]
    by (rule arg_cong [where f = concat], rule map_cong [OF refl]) (rule inner)
  also have "\<dots> = filter P [0..<m * 8]"
    by (rule concat_filter_upt)
  also have "[0..<m * 8] = [0..<length attrs] @ [length attrs..<m * 8]"
    using m(2) upt_add_eq_append [of 0 "length attrs" "m * 8 - length attrs"] by simp
  also have "filter P \<dots> = filter P [0..<length attrs]"
    by (simp add: P_def)
  also have "\<dots> = filter (\<lambda>k. dirtyBit dirty k \<and> attrs ! k \<noteq> None) [0..<length attrs]"
    by (rule filter_cong) (simp_all add: P_def)
  finally show ?thesis .
qed

lemma writeBitmask_defined:
  assumes "writeBitmask attrs dirty is = Some bs" "i \<in> set is" "dirtyBit dirty i"
  shows "attrs ! i \<noteq> None"
  using assms by (induction "is" arbitrary: bs) (auto split: if_splits option.splits)

lemma writeIndices_defined:
  assumes "writeIndices attrs changed = Some bs" "i \<in> set changed"
  shows "i < length attrs \<and> attrs ! i \<noteq> None"
  using assms by (induction changed arbitrary: bs) (auto split: if_splits option.splits)

text \<open>
  C6.  The sender of an attribute edit picks the layout by size: the index list when
  eight bits for each changed attribute and eight for the count are at most one bit for
  each attribute of the component, the bitmask otherwise.  In both layouts the receiver,
  whose component has the sender's attribute layout, reads back exactly the changed
  attributes, in order, with the sender's values, whatever follows the block.
\<close>

theorem C6_edit_encoding:
  assumes size: "length attrs \<le> 256"
    and layout: "sameLayout attrs attributes"
    and wf: "\<forall>i\<in>set (changedAttributes attrs dirty). wellFormed attrBits (the (attrs ! i))"
    and block: "WriteEditAttributes attrs dirty (changedAttributes attrs dirty) = Some block"
  shows "hd block = (\<not> length (changedAttributes attrs dirty) * 8 + 8 \<le> length attrs) \<and>
         (\<exists>res. ReadEditAttributes attrBits isServer attributes (block @ padding) = Returns res \<and>
            edApplied res = expectedReads isServer attrs attributes (changedAttributes attrs dirty) \<and>
            edWarnings res = [])"
proof -
  define changed where "changed = changedAttributes attrs dirty"
  define res0 where "res0 = \<lparr>edAttributes = attributes, edApplied = [], edWarnings = []\<rparr>"
  have inv0: "map kind (edAttributes res0) = map kind attributes"
    by (simp add: res0_def)
  have len: "length attributes = length attrs"
    using layout by (simp add: sameLayout_def)
  have filt: "changed = filter (\<lambda>k. dirtyBit dirty k \<and> attrs ! k \<noteq> None) [0..<length attrs]"
    unfolding changed_def by (rule changedAttributes_filter [OF size])
  show ?thesis
  proof (cases "length changed * 8 + 8 \<le> length attrs")
    case True
    with block obtain bs where bs: "writeIndices attrs changed = Some bs"
      and blk: "block = False # Add_u8 (word_of_nat (length changed)) @ bs"
      by (auto simp add: WriteEditAttributes_def changed_def)
    have count: "unat (word_of_nat (length changed) :: u8) = length changed"
      using True size by (simp add: unat_of_nat)
    have "\<forall>i\<in>set changed. i < 256 \<and> wellFormed attrBits (the (attrs ! i))"
      using wf size filt changed_def by auto
    from readIndices_writeIndices [OF bs this inv0 layout, of isServer padding]
    obtain res where res: "readIndices attrBits isServer (length changed) res0 (bs @ padding) = Returns res"
      "edApplied res = expectedReads isServer attrs attributes changed" "edWarnings res = []"
      by (auto simp add: res0_def)
    have "ReadEditAttributes attrBits isServer attributes (block @ padding) = Returns res"
      using res(1) by (simp add: ReadEditAttributes_def Read_bit_def blk count res0_def)
    then show ?thesis
      using res(2,3) True by (simp add: blk changed_def)
  next
    case False
    with block obtain bs where bs: "writeBitmask attrs dirty [0..<length attrs] = Some bs"
      and blk: "block = True # bs"
      by (auto simp add: WriteEditAttributes_def changed_def)
    have "\<forall>i\<in>set [0..<length attrs].
            i < length attrs \<and> (dirtyBit dirty i \<longrightarrow> wellFormed attrBits (the (attrs ! i)))"
    proof
      fix i assume i: "i \<in> set [0..<length attrs]"
      have "wellFormed attrBits (the (attrs ! i))" if d: "dirtyBit dirty i"
      proof -
        have "attrs ! i \<noteq> None"
          by (rule writeBitmask_defined [OF bs i d])
        then have "i \<in> set changed"
          using i d by (simp add: filt)
        then show ?thesis
          using wf by (simp add: changed_def)
      qed
      then show "i < length attrs \<and> (dirtyBit dirty i \<longrightarrow> wellFormed attrBits (the (attrs ! i)))"
        using i by simp
    qed
    from readBitmask_writeBitmask [OF bs this inv0 layout, of isServer padding]
    obtain res where res: "readBitmask attrBits isServer [0..<length attrs] res0 (bs @ padding) = Returns res"
      "edApplied res = expectedReads isServer attrs attributes changed" "edWarnings res = []"
      by (auto simp add: res0_def filt)
    have "ReadEditAttributes attrBits isServer attributes (block @ padding) = Returns res"
      using res(1) by (simp add: ReadEditAttributes_def Read_bit_def blk res0_def len)
    then show ?thesis
      using res(2,3) False by (simp add: blk changed_def)
  qed
qed

lemma changed_of_three: "changedAttributes three_attrs first_dirty = [0]"
  by (simp add: changedAttributes_def three_attrs_def first_dirty_def upt_conv_Cons)

lemma block_of_three:
  "WriteEditAttributes three_attrs first_dirty [0] =
   Some (True # True # ToBinary (byte_attr 7) @ [False, False])"
  by (simp add: WriteEditAttributes_def three_attrs_def first_dirty_def dirtyBit_def upt_conv_Cons)

theorem C6_edit_encoding_witness:
  "\<exists>res. ReadEditAttributes attrBits8 True three_attrs
           (True # True # ToBinary (byte_attr 7) @ [False, False]) = Returns res \<and>
         edApplied res = [(0, Add_u8 7, False)]"
proof -
  have size: "length three_attrs \<le> 256"
    by (simp add: three_attrs_def)
  have layout: "sameLayout three_attrs three_attrs"
    by (simp add: sameLayout_def)
  have wf: "\<forall>i\<in>set (changedAttributes three_attrs first_dirty). wellFormed attrBits8 (the (three_attrs ! i))"
    unfolding changed_of_three
    by (simp add: wellFormed_def attrBits8_def three_attrs_def byte_attr_def Add_u8_def)
  have block: "WriteEditAttributes three_attrs first_dirty (changedAttributes three_attrs first_dirty) =
      Some (True # True # ToBinary (byte_attr 7) @ [False, False])"
    by (simp add: changed_of_three block_of_three)
  from C6_edit_encoding [OF size layout wf block, of True "[]"]
  obtain res where res: "ReadEditAttributes attrBits8 True three_attrs
           (True # True # ToBinary (byte_attr 7) @ [False, False]) = Returns res"
    "edApplied res = expectedReads True three_attrs three_attrs [0]"
    unfolding changed_of_three by auto
  have "expectedReads True three_attrs three_attrs [0] = [(0, Add_u8 7, False)]"
    by (simp add: expectedReads_def three_attrs_def byte_attr_def)
  with res show ?thesis
    by simp
qed

theorem C6_bitmask_for_one_change_counterexample:
  "length (changedAttributes three_attrs first_dirty) = 1 \<and>
   map_option hd (WriteEditAttributes three_attrs first_dirty (changedAttributes three_attrs first_dirty)) = Some True"
  by (simp add: changed_of_three block_of_three)

subsection \<open>C9: a message that ends too early\<close>

lemma theScene_Log [simp]: "theScene (Log e w) = theScene w"
  by (simp add: theScene_def Log_def)

lemma theScene_logged [simp]: "theScene (w\<lparr>logged := l\<rparr>) = theScene w"
  by (simp add: theScene_def)

lemma theScene_setConnection [simp]: "theScene (setConnection c u w) = theScene w"
  by (cases c) (simp_all add: theScene_def setConnection_def)

lemma theScene_updateSyncState [simp]: "theScene (updateSyncState c f w) = theScene w"
  by (simp add: updateSyncState_def Let_def)

lemma theScene_Send [simp]: "theScene (Send c m w) = theScene w"
  by (simp add: Send_def Let_def)











lemma theScene_updateEntity [simp]:
  "theScene (updateEntity eid f w) = (theScene w)(eid := map_option f (theScene w eid))"
  by (simp add: updateEntity_def theScene_def)





























text \<open>
  The handlers of CreateEntity and CreateComponents, up to a throw and through the removals
  that follow it, keep the connections: the marks they make are of dirty and processed
  entities, components and attributes.  The creation of components keeps the parents too.
\<close>

lemma undisturbed_refl [simp]: "undisturbed u u"
  by (simp add: undisturbed_def split: option.splits)



lemma undisturbed_unacked [simp]: "undisturbed u (u\<lparr>unackedIdsToRealIds := m\<rparr>)"
  by (simp add: undisturbed_def split: option.splits)

lemma undisturbed_sent [simp]: "undisturbed u (u\<lparr>sent := m\<rparr>)"
  by (simp add: undisturbed_def split: option.splits)

lemma keeps_refl [simp]: "keeps w w"
  by (simp add: keeps_def list_all2_refl)


lemma keeps_same:
  "IsServer w' = IsServer w \<Longrightarrow> UserConnections w' = UserConnections w \<Longrightarrow>
   serverConnection w' = serverConnection w \<Longrightarrow> logged w' = logged w @ xs \<Longrightarrow> keeps w w'"
  by (simp add: keeps_def list_all2_refl)



lemma keeps_scene [simp]: "keeps w (w\<lparr>scene := s\<rparr>)"
  by (rule keeps_same [where xs = "[]"]) simp_all

lemma keeps_updateEntity [simp]: "keeps w (updateEntity eid f w)"
  by (simp add: updateEntity_def)

lemma keeps_setConnection:
  assumes "validConn w c \<Longrightarrow> undisturbed (getConnection w c) u"
  shows "keeps w (setConnection c u w)"
proof (cases c)
  case ServerConnection
  with assms show ?thesis
    by (simp add: keeps_def setConnection_def getConnection_def validConn_def list_all2_refl)
next
  case (User i)
  show ?thesis
  proof (cases "i < length (UserConnections w)")
    case True
    with assms User have "undisturbed (UserConnections w ! i) u"
      by (simp add: validConn_def getConnection_def)
    then have "list_all2 undisturbed (UserConnections w) ((UserConnections w)[i := u])"
      using True by (auto simp add: list_all2_conv_all_nth nth_list_update)
    then show ?thesis
      by (simp add: keeps_def setConnection_def User)
  next
    case False
    then show ?thesis
      by (simp add: keeps_def setConnection_def User list_all2_refl list_update_beyond)
  qed
qed


lemma keeps_Send [simp]: "keeps w (Send c m w)"
  unfolding Send_def Let_def
  by (rule keeps_setConnection) simp




lemma removed_entityState_upd:
  "removed (entityState (st\<lparr>entities := (entities st)(eid \<mapsto> es)\<rparr>) e)
     = (if e = eid then removed es else removed (entityState st e))"
  by (simp add: entityState_def)

lemma benign_MarkEntityDirty [simp]: "benign (MarkEntityDirty eid a b)"
  by (auto simp add: benign_def MarkEntityDirty_def Let_def entityState_def componentState_def
      split: option.splits)

lemma benign_MarkEntityProcessed [simp]: "benign (MarkEntityProcessed eid)"
  by (auto simp add: benign_def MarkEntityProcessed_def Let_def entityState_def componentState_def
      DirtyProcessed_def newEntityState_def newComponentState_def split: option.splits)

lemma benign_MarkComponentProcessed [simp]: "benign (MarkComponentProcessed eid cid)"
  by (auto simp add: benign_def MarkComponentProcessed_def Let_def entityState_def componentState_def
      DirtyProcessed_def newEntityState_def newComponentState_def split: option.splits)

lemma benign_comp: "benign f \<Longrightarrow> benign g \<Longrightarrow> benign (\<lambda>st. f (g st))"
  by (simp add: benign_def)

lemma benign_updateComponentState:
  "(\<And>cs. compRemoved (f cs) = compRemoved cs) \<Longrightarrow> benign (updateComponentState eid cid f)"
  by (auto simp add: benign_def updateComponentState_def Let_def entityState_def componentState_def
      newEntityState_def newComponentState_def split: option.splits)

lemma benign_MarkComponentDirty [simp]: "benign (MarkComponentDirty eid cid)"
proof -
  have "MarkComponentDirty eid cid = (\<lambda>st. 
      (\<lambda>st. let es = entityState st eid; cs = componentState es cid
       in st\<lparr>entities := (entities st)(eid \<mapsto>
               es\<lparr>components := (components es)(cid \<mapsto> cs\<lparr>compIsInQueue := True\<rparr>),
                   compDirtyQueue := (if compIsInQueue cs then compDirtyQueue es
                                      else compDirtyQueue es @ [cid])\<rparr>)\<rparr>) (MarkEntityDirty eid False False st))"
    by (intro ext) (simp add: MarkComponentDirty_def Let_def)
  moreover have "benign (\<lambda>st. let es = entityState st eid; cs = componentState es cid
       in st\<lparr>entities := (entities st)(eid \<mapsto>
               es\<lparr>components := (components es)(cid \<mapsto> cs\<lparr>compIsInQueue := True\<rparr>),
                   compDirtyQueue := (if compIsInQueue cs then compDirtyQueue es
                                      else compDirtyQueue es @ [cid])\<rparr>)\<rparr>)"
    by (auto simp add: benign_def Let_def entityState_def componentState_def
      newEntityState_def newComponentState_def split: option.splits)
  ultimately show ?thesis
    using benign_comp [OF _ benign_MarkEntityDirty] by simp
qed

lemma benign_MarkAttributeDirty [simp]: "benign (MarkAttributeDirty eid cid i)"
  unfolding MarkAttributeDirty_def
  by (rule benign_comp [OF benign_updateComponentState benign_MarkComponentDirty]) simp

lemma benign_MarkAttributeCreated [simp]: "benign (MarkAttributeCreated eid cid i)"
  unfolding MarkAttributeCreated_def
  by (rule benign_comp [OF benign_updateComponentState benign_MarkComponentDirty]) simp

lemma benign_RemovePendingEntity [simp]: "benign (RemovePendingEntity eid)"
  by (simp add: benign_def RemovePendingEntity_def)

lemma sameParents_refl [simp]: "sameParents w w"
  by (simp add: sameParents_def)










































subsection \<open>C2: ids of the unacked range\<close>





















subsection \<open>C1: echo suppression\<close>

lemma hasState_cases:
  assumes "hasState w c"
  obtains st where "syncState (getConnection w c) = Some st"
  using assms by (cases c) (auto simp add: hasState_def getConnection_def)

lemma sender_updateSyncState:
  assumes "hasState w c"
  shows "syncState (getConnection (updateSyncState c f w) c) = map_option f (syncState (getConnection w c))"
    and "hasState (updateSyncState c f w) c"
  using assms
  by (cases c; auto simp add: hasState_def getConnection_def setConnection_def updateSyncState_def Let_def)+

lemma sender_Log [simp]:
  "getConnection (Log e w) c = getConnection w c" "hasState (Log e w) c = hasState w c"
  by (cases c; simp add: getConnection_def Log_def hasState_def)+

lemma sender_updateEntity [simp]:
  "getConnection (updateEntity eid f w) c = getConnection w c"
  "hasState (updateEntity eid f w) c = hasState w c"
  by (cases c; simp add: getConnection_def updateEntity_def hasState_def)+

lemma syncState_sent_update:
  "syncState (xs[j := (xs ! j)\<lparr>sent := s\<rparr>] ! i) = syncState (xs ! i)"
proof (cases "j < length xs")
  case True
  then show ?thesis by (cases "i = j") simp_all
next
  case False
  then have "xs[j := (xs ! j)\<lparr>sent := s\<rparr>] = xs"
    by (intro list_update_beyond) simp
  then show ?thesis by simp
qed

lemma sender_Send:
  assumes "hasState w c"
  shows "syncState (getConnection (Send c' m w) c) = syncState (getConnection w c)"
    and "hasState (Send c' m w) c"
proof -
  show "syncState (getConnection (Send c' m w) c) = syncState (getConnection w c)"
    by (cases c; cases c')
      (simp_all add: Send_def Let_def getConnection_def setConnection_def syncState_sent_update)
  then show "hasState (Send c' m w) c"
    using assms
    by (cases c; cases c')
      (simp_all add: Send_def Let_def getConnection_def setConnection_def hasState_def)
qed

lemma sender_markStates:
  assumes "markStates f w = Some w'" "hasState w c"
  shows "hasState w' c \<and>
         (syncState (getConnection w' c) = syncState (getConnection w c) \<or>
          syncState (getConnection w' c) = map_option f (syncState (getConnection w c)))"
  using assms
  by (cases c)
    (auto simp add: markStates_def hasState_def getConnection_def split: if_splits option.splits)

lemma marks_emit:
  assumes "emit change slot w = Some w'" "hasState w c"
    and "\<And>k. slot k w = Some w' \<Longrightarrow> marks f c w w'"
  shows "marks f c w w'"
  using assms by (auto simp add: emit_def marks_def split: if_splits)

lemma marks_OnAttributeChanged:
  assumes "emit change (OnAttributeChanged api eid cid i) w = Some w'" "hasState w c"
  shows "marks (MarkAttributeDirty eid cid i) c w w'"
  using assms(1,2)
proof (rule marks_emit)
  fix k assume "OnAttributeChanged api eid cid i k w = Some w'"
  then show "marks (MarkAttributeDirty eid cid i) c w w'"
    using sender_markStates [of "MarkAttributeDirty eid cid i" w w' c] assms(2)
    by (auto simp add: OnAttributeChanged_def marks_def split: if_splits)
qed

lemma marks_OnEntityPropertiesChanged:
  assumes "emit change (OnEntityPropertiesChanged api eid) w = Some w'" "hasState w c"
  shows "marks (MarkEntityDirty eid True False) c w w'"
  using assms(1,2)
proof (rule marks_emit)
  fix k assume "OnEntityPropertiesChanged api eid k w = Some w'"
  then show "marks (MarkEntityDirty eid True False) c w w'"
    using sender_markStates [of "MarkEntityDirty eid True False" w w' c] assms(2)
    by (auto simp add: OnEntityPropertiesChanged_def marks_def split: if_splits)
qed

lemma marks_OnEntityParentChanged:
  assumes "emit change (OnEntityParentChanged api eid p) w = Some w'" "hasState w c"
  shows "marks (MarkEntityDirty eid False True) c w w'"
  using assms(1,2)
proof (rule marks_emit)
  fix k assume "OnEntityParentChanged api eid p k w = Some w'"
  then show "marks (MarkEntityDirty eid False True) c w w'"
    using sender_markStates [of "MarkEntityDirty eid False True" w w' c] assms(2)
    by (auto simp add: OnEntityParentChanged_def marks_def split: if_splits)
qed

lemma entityState_updateEntityState [simp]:
  "entityState (updateEntityState eid f st) eid = f (entityState st eid)"
  by (simp add: entityState_def updateEntityState_def)

lemma applyEntityProperties_clears:
  assumes "applyEntityProperties api source eid b w = Returns w'" "hasState w source"
  shows "\<not> hasPropertyChanges (senderState w' source eid)"
proof -
  from assms(1) obtain w1 where
    w1: "emit (if IsServer w then Replicate else LocalOnly) (OnEntityPropertiesChanged api eid)
           (updateEntity eid (\<lambda>e. e\<lparr>IsTemporary := b\<rparr>) w) = Some w1"
    and w': "w' = updateSyncState source (updateEntityState eid (\<lambda>es. es\<lparr>hasPropertyChanges := False\<rparr>)) w1"
    by (auto simp add: applyEntityProperties_def SetTemporary_def split: option.splits)
  have "hasState w1 source"
    using marks_OnEntityPropertiesChanged [OF w1] assms(2) by (simp add: marks_def)
  then obtain st where st: "syncState (getConnection w1 source) = Some st"
    by (rule hasState_cases)
  show ?thesis
    using sender_updateSyncState(1) [OF \<open>hasState w1 source\<close>] st
    by (simp add: senderState_def w')
qed

lemma applyEntityParent_clears:
  assumes "applyEntityParent api source eid p w = Returns w'" "hasState w source"
  shows "\<not> hasParentChange (senderState w' source eid)"
proof -
  from assms(1) obtain w1 where
    w1: "emit (if IsServer w then Replicate else LocalOnly) (OnEntityParentChanged api eid p)
           (updateEntity eid (\<lambda>e. e\<lparr>Parent := p\<rparr>) w) = Some w1"
    and w': "w' = updateSyncState source (updateEntityState eid (\<lambda>es. es\<lparr>hasParentChange := False\<rparr>)) w1"
    by (auto simp add: applyEntityParent_def SetParent_def split: option.splits)
  have "hasState w1 source"
    using marks_OnEntityParentChanged [OF w1] assms(2) by (simp add: marks_def)
  then obtain st where st: "syncState (getConnection w1 source) = Some st"
    by (rule hasState_cases)
  show ?thesis
    using sender_updateSyncState(1) [OF \<open>hasState w1 source\<close>] st
    by (simp add: senderState_def w')
qed

lemma dirtyBit_iff: "dirtyBit d i \<longleftrightarrow> bit (d (i div 8)) (i mod 8)"
  by (simp add: dirtyBit_def bit_iff_and_push_bit_not_eq_0)

lemma same_index: "i div 8 = j div 8 \<Longrightarrow> i mod 8 = j mod 8 \<Longrightarrow> i = (j::nat)"
  by (metis div_mult_mod_eq)

lemma dirtyBit_set:
  "dirtyBit (d(j div 8 := d (j div 8) OR 2 ^ (j mod 8))) i = (dirtyBit d i \<or> i = j)"
  by (auto simp add: dirtyBit_iff bit_or_iff bit_exp_iff possible_bit_word dest: same_index)

lemma dirtyBit_clear:
  "dirtyBit (d(j div 8 := d (j div 8) AND NOT (2 ^ (j mod 8)))) i = (dirtyBit d i \<and> i \<noteq> j)"
  by (auto simp add: dirtyBit_iff bit_and_iff bit_not_iff bit_exp_iff possible_bit_word dest: same_index)

lemma componentState_update:
  "componentState (es\<lparr>components := (components es)(c' \<mapsto> x)\<rparr>) c =
   (if c = c' then x else componentState es c)"
  by (simp add: componentState_def)

lemma entityState_updateComponentState:
  "entityState (updateComponentState eid c f st) eid =
   (entityState st eid)\<lparr>components := (components (entityState st eid))(c \<mapsto> f (componentState (entityState st eid) c))\<rparr>"
  by (simp add: updateComponentState_def Let_def entityState_def)

lemma bitsOf_updateComponentState:
  "bitsOf (updateComponentState eid c' f st) eid c =
   (if c = c' then dirtyAttributes (f (componentState (entityState st eid) c')) else bitsOf st eid c)"
  by (simp add: bitsOf_def entityState_updateComponentState componentState_update)

lemma bitsOf_MarkComponentDirty: "bitsOf (MarkComponentDirty eid c' st) eid c = bitsOf st eid c"
  by (simp add: bitsOf_def MarkComponentDirty_def MarkEntityDirty_def Let_def entityState_def
      componentState_def)

lemma componentState_MarkComponentDirty:
  "dirtyAttributes (componentState (entityState (MarkComponentDirty eid c' st) eid) c) = bitsOf st eid c"
  using bitsOf_MarkComponentDirty [of eid c' st c] by (simp add: bitsOf_def)

lemma dirtyBit_MarkAttributeDirty:
  "dirtyBit (bitsOf (MarkAttributeDirty eid c' j st) eid c) i =
   (dirtyBit (bitsOf st eid c) i \<or> (c = c' \<and> i = j))"
  by (simp add: MarkAttributeDirty_def bitsOf_updateComponentState componentState_MarkComponentDirty
      bitsOf_MarkComponentDirty dirtyBit_set)

lemma dirtyBit_clearDirty:
  "dirtyBit (bitsOf (clearDirty eid c' j st) eid c) i =
   (dirtyBit (bitsOf st eid c) i \<and> \<not> (c = c' \<and> i = j))"
proof (cases "c = c'")
  case True
  have "bitsOf (clearDirty eid c' j st) eid c' =
        (bitsOf st eid c')(j div 8 := bitsOf st eid c' (j div 8) AND NOT (2 ^ (j mod 8)))"
    by (simp add: clearDirty_def bitsOf_updateComponentState) (simp add: bitsOf_def)
  then show ?thesis
    using True by (simp add: dirtyBit_clear)
next
  case False
  then show ?thesis
    by (simp add: clearDirty_def bitsOf_updateComponentState)
qed

lemma signalEdits_clears:
  assumes "signalEdits api source eid change changedAttrs w = Some w'" "hasState w source"
  shows "hasState w' source \<and>
         (\<forall>cid i. dirtyBit (bitsOf (the (syncState (getConnection w' source))) eid cid) i \<longrightarrow>
            dirtyBit (bitsOf (the (syncState (getConnection w source))) eid cid) i \<and>
            (cid, i) \<notin> set changedAttrs)"
  using assms
proof (induction changedAttrs arbitrary: w)
  case Nil
  then show ?case by simp
next
  case (Cons x changedAttrs)
  obtain c' j where x: "x = (c', j)" by (cases x) auto
  from Cons.prems(1) x obtain w1 where
    w1: "emit change (OnAttributeChanged api eid c' j) w = Some w1"
    and rest: "signalEdits api source eid change changedAttrs
                 (updateSyncState source (clearDirty eid c' j) w1) = Some w'"
    by (auto split: option.splits)
  define w2 where "w2 = updateSyncState source (clearDirty eid c' j) w1"
  from marks_OnAttributeChanged [OF w1 Cons.prems(2)]
  have h1: "hasState w1 source"
    and m: "syncState (getConnection w1 source) = syncState (getConnection w source) \<or>
            syncState (getConnection w1 source) = map_option (MarkAttributeDirty eid c' j) (syncState (getConnection w source))"
    by (auto simp add: marks_def)
  obtain st where st: "syncState (getConnection w source) = Some st"
    using Cons.prems(2) by (rule hasState_cases)
  have h2: "hasState w2 source"
    and s2: "syncState (getConnection w2 source) = map_option (clearDirty eid c' j) (syncState (getConnection w1 source))"
    using sender_updateSyncState [OF h1] by (simp_all add: w2_def)
  have step: "dirtyBit (bitsOf (the (syncState (getConnection w2 source))) eid cid) i \<longrightarrow>
              dirtyBit (bitsOf st eid cid) i \<and> (cid, i) \<noteq> (c', j)" for cid i
    using m st s2 by (auto simp add: dirtyBit_clearDirty dirtyBit_MarkAttributeDirty)
  from Cons.IH [OF rest [folded w2_def] h2]
  have ih: "hasState w' source"
    "\<And>cid i. dirtyBit (bitsOf (the (syncState (getConnection w' source))) eid cid) i \<Longrightarrow>
       dirtyBit (bitsOf (the (syncState (getConnection w2 source))) eid cid) i \<and>
       (cid, i) \<notin> set changedAttrs"
    by auto
  show ?case
    using ih step st x by auto
qed

lemma clear_not_changed:
  assumes "\<not> dirtyBit d i" "length attrs \<le> 256"
  shows "i \<notin> set (changedAttributes attrs d)"
  using assms by (simp add: changedAttributes_filter)

lemma hasState_sequence:
  assumes "sequence f xs w = Some w'" "hasState w c"
    and "\<And>x v v'. f x v = Some v' \<Longrightarrow> hasState v c \<Longrightarrow> hasState v' c"
  shows "hasState w' c"
  using assms(1,2)
proof (induction xs arbitrary: w)
  case Nil
  then show ?case by simp
next
  case (Cons x xs)
  then obtain v where v: "f x w = Some v" "sequence f xs v = Some w'"
    by (auto split: option.splits)
  show ?case
    by (rule Cons.IH [OF v(2) assms(3) [OF v(1) Cons.prems(2)]])
qed

lemma hasState_ComponentChanged:
  assumes "ComponentChanged api eid change cid w = Some w'" "hasState w c"
  shows "hasState w' c"
proof (cases "GetComponentById w eid cid")
  case None
  then show ?thesis
    using assms by (simp add: ComponentChanged_def)
next
  case (Some cmp)
  then have "sequence (\<lambda>i. emit change (OnAttributeChanged api eid cid i))
            (filter (\<lambda>i. Attributes cmp ! i \<noteq> None) [0..<length (Attributes cmp)]) w = Some w'"
    using assms(1) by (simp add: ComponentChanged_def)
  then show ?thesis
    using assms(2)
  proof (rule hasState_sequence)
    fix i v v'
    assume "emit change (OnAttributeChanged api eid cid i) v = Some v'" "hasState v c"
    from marks_OnAttributeChanged [OF this] show "hasState v' c"
      by (simp add: marks_def)
  qed
qed

lemma hasState_OnEntityCreated:
  assumes "emit change (OnEntityCreated api eid) w = Some w'" "hasState w c"
  shows "hasState w' c"
proof -
  have "hasState (warnQueuedForDeletion eid v) c = hasState v c" for v
    by (cases c) (simp_all add: warnQueuedForDeletion_def hasState_def)
  then show ?thesis
    using assms sender_markStates [of "MarkEntityDirty eid False False" w _ c]
    by (auto simp add: emit_def OnEntityCreated_def split: if_splits)
qed

lemma finishCreateEntity_clears:
  assumes "finishCreateEntity api source senderEntityID eid added w = Returns w'" "hasState w source"
  shows "\<not> isNew (senderState w' source eid) \<and> \<not> hasPropertyChanges (senderState w' source eid) \<and>
         \<not> hasParentChange (senderState w' source eid) \<and> compDirtyQueue (senderState w' source eid) = []"
proof -
  define change where "change = (if IsServer w then Replicate else LocalOnly)"
  from assms(1) obtain w1 w2 w3 where
    w1: "emit change (OnEntityCreated api eid) w = Some w1"
    and w2: "sequence (ComponentChanged api eid change) (remdups (map snd added)) w1 = Some w2"
    and w3: "w3 = w2 \<or> (\<exists>m. w3 = Send source m w2)"
    and w': "w' = updateSyncState source (MarkEntityProcessed eid) w3"
    unfolding finishCreateEntity_def Let_def change_def
    by (auto split: option.splits if_splits)
  have h1: "hasState w1 source"
    by (rule hasState_OnEntityCreated [OF w1 assms(2)])
  have h2: "hasState w2 source"
    using w2 h1 by (rule hasState_sequence) (rule hasState_ComponentChanged)
  have h3: "hasState w3 source"
    using w3 h2 sender_Send(2) by auto
  then obtain st where st: "syncState (getConnection w3 source) = Some st"
    by (rule hasState_cases)
  show ?thesis
    using sender_updateSyncState(1) [OF h3] st
    by (simp add: senderState_def w' MarkEntityProcessed_def Let_def entityState_def)
qed





end
